theory Spec2Isabelle
  imports Complex_Main
begin

section \<open>Data model (types.ts)\<close>

text \<open>
  JavaScript numbers that carry coordinates are modelled as \<open>real\<close> (exact arithmetic);
  ids, indices and loop counters are integers. Optional fields (\<open>asciiArt?\<close>,
  \<open>bridgeText?\<close>, \<open>terms?\<close>) and nullable ones (\<open>error\<close>) are \<open>option\<close>s.
  \<open>Idea\<close> and \<open>Suggestion\<close> extend \<open>Rect\<close>, so they are record extensions and every
  function on a \<open>Rect\<close> accepts them.
\<close>

record point =
  px :: real
  py :: real

record rect =
  rect_x :: real
  rect_y :: real
  rect_width :: real
  rect_height :: real

record ideaVersion =
  v_text :: string
  v_asciiArt :: "string option"
  v_bridgeText :: "string option"
  v_terms :: "string list option"

record idea = rect +
  idea_id :: int
  idea_text :: string
  asciiArt :: "string option"
  bridgeText :: "string option"
  terms :: "string list"
  versions :: "ideaVersion list"
  currentVersionIndex :: int
  isLoading :: bool
  isAsciiLoading :: bool
  error :: "string option"
  isCollapsed :: bool

record suggestion = rect +
  sugg_id :: string
  sourceId :: int
  sugg_text :: string

text \<open>\<open>GeminiMainContentResponse\<close> of the content service.\<close>

record mainContent =
  mc_text :: string
  mc_bridge :: "string option"
  mc_terms :: "string list"

text \<open>
  The React state of \<open>App\<close> that the engine's operations read and write
  (\<open>useState\<close> cells of App.tsx, lines 69 to 89).
\<close>

record engine =
  ideas :: "idea list"
  activeIdeaId :: "int option"
  activeSuggestions :: "suggestion list"
  panOffset :: point
  zoom :: real
  showInitialInput :: bool
  totalCharsGenerated :: nat
  sessionStartTime :: "real option"

section \<open>Geometry kernel (App.tsx)\<close>

definition GRID_GAP :: real where
  "GRID_GAP = 24"

definition TOOLBAR_HEIGHT :: real where
  "TOOLBAR_HEIGHT = 60"

text \<open>\<open>isOverlap(newRect, gap = GRID_GAP)\<close>: \<open>ideas.some(...)\<close> over the node list.\<close>

definition isOverlap :: "idea list \<Rightarrow> 'a rect_scheme \<Rightarrow> real \<Rightarrow> bool" where
  "isOverlap nodes newRect gap =
     list_ex (\<lambda>idea.
       \<not> (rect_x newRect + rect_width newRect + gap \<le> rect_x idea \<or>
          rect_x newRect \<ge> rect_x idea + rect_width idea + gap \<or>
          rect_y newRect + rect_height newRect + gap \<le> rect_y idea \<or>
          rect_y newRect \<ge> rect_y idea + rect_height idea + gap)) nodes"

definition step :: int where
  "step = 20"

definition maxRings :: int where
  "maxRings = 40"

text \<open>The object spread \<open>{ ...rect, x: rect.x + x * step, y: rect.y + y * step }\<close>.\<close>

definition testRect :: "'a rect_scheme \<Rightarrow> int \<Rightarrow> int \<Rightarrow> 'a rect_scheme" where
  "testRect r x y =
     r\<lparr>rect_x := rect_x r + of_int (x * step), rect_y := rect_y r + of_int (y * step)\<rparr>"

text \<open>
  The three nested \<open>for\<close> loops of \<open>findValidSpot\<close>, innermost first. Each returns
  \<open>Some\<close> rectangle when the source executes \<open>return testRect\<close> and \<open>None\<close> when the
  loop runs to its end.
\<close>

function loopY :: "idea list \<Rightarrow> 'a rect_scheme \<Rightarrow> int \<Rightarrow> int \<Rightarrow> int \<Rightarrow> 'a rect_scheme option" where
  "loopY nodes r rg x y =
     (if y \<le> rg then
        (if \<bar>x\<bar> \<noteq> rg \<and> \<bar>y\<bar> \<noteq> rg then loopY nodes r rg x (y + 1)
         else if \<not> isOverlap nodes (testRect r x y) GRID_GAP then Some (testRect r x y)
         else loopY nodes r rg x (y + 1))
      else None)"
  by pat_completeness auto
termination
  by (relation "measure (\<lambda>(nodes, r, rg, x, y). nat (rg + 1 - y))") auto

function loopX :: "idea list \<Rightarrow> 'a rect_scheme \<Rightarrow> int \<Rightarrow> int \<Rightarrow> 'a rect_scheme option" where
  "loopX nodes r rg x =
     (if x \<le> rg then
        (case loopY nodes r rg x (- rg) of
           Some t \<Rightarrow> Some t
         | None \<Rightarrow> loopX nodes r rg (x + 1))
      else None)"
  by pat_completeness auto
termination
  by (relation "measure (\<lambda>(nodes, r, rg, x). nat (rg + 1 - x))") auto

function loopR :: "idea list \<Rightarrow> 'a rect_scheme \<Rightarrow> int \<Rightarrow> 'a rect_scheme option" where
  "loopR nodes r rg =
     (if rg \<le> maxRings then
        (case loopX nodes r rg (- rg) of
           Some t \<Rightarrow> Some t
         | None \<Rightarrow> loopR nodes r (rg + 1))
      else None)"
  by pat_completeness auto
termination
  by (relation "measure (\<lambda>(nodes, r, rg). nat (maxRings + 1 - rg))") auto

declare loopY.simps [simp del] loopX.simps [simp del] loopR.simps [simp del]

definition findValidSpot :: "idea list \<Rightarrow> 'a rect_scheme \<Rightarrow> 'a rect_scheme" where
  "findValidSpot nodes r =
     (if \<not> isOverlap nodes r GRID_GAP then r
      else case loopR nodes r 1 of Some t \<Rightarrow> t | None \<Rightarrow> r)"

text \<open>
  The scan order of the loops as a list, used to state which offset is the first:
  ring \<open>rg\<close> lists \<open>dx\<close> from \<open>-rg\<close> to \<open>rg\<close>, inside it \<open>dy\<close> from \<open>-rg\<close> to \<open>rg\<close>,
  keeping the perimeter only; the rings follow one another from 1 to 40.
\<close>

definition colOffsets :: "int \<Rightarrow> int \<Rightarrow> int \<Rightarrow> (int \<times> int) list" where
  "colOffsets rg dx lo = map (\<lambda>dy. (dx, dy)) (filter (\<lambda>dy. \<bar>dx\<bar> = rg \<or> \<bar>dy\<bar> = rg) [lo..rg])"

definition ringOffsetsFrom :: "int \<Rightarrow> int \<Rightarrow> (int \<times> int) list" where
  "ringOffsetsFrom rg lo = concat (map (\<lambda>dx. colOffsets rg dx (- rg)) [lo..rg])"

definition ringOffsets :: "int \<Rightarrow> (int \<times> int) list" where
  "ringOffsets rg = ringOffsetsFrom rg (- rg)"

definition allOffsetsFrom :: "int \<Rightarrow> (int \<times> int) list" where
  "allOffsetsFrom lo = concat (map ringOffsets [lo..40])"

definition allOffsets :: "(int \<times> int) list" where
  "allOffsets = allOffsetsFrom 1"

definition translate :: "'a rect_scheme \<Rightarrow> int \<times> int \<Rightarrow> 'a rect_scheme" where
  "translate r off =
     r\<lparr>rect_x := rect_x r + of_int (fst off) * 20, rect_y := rect_y r + of_int (snd off) * 20\<rparr>"

definition clears :: "idea list \<Rightarrow> 'a rect_scheme \<Rightarrow> bool" where
  "clears nodes r = (\<not> isOverlap nodes r 24)"

text \<open>The ring of an offset: the larger of the absolute values of its coordinates.\<close>

definition ring :: "int \<times> int \<Rightarrow> int" where
  "ring off = max \<bar>fst off\<bar> \<bar>snd off\<bar>"

section \<open>Node store (App.tsx)\<close>

text \<open>
  Reading \<open>xs[k]\<close> from a JavaScript array: \<open>undefined\<close> (here \<open>None\<close>) outside
  \<open>0 .. length - 1\<close>. The elements are objects, so a defined element is truthy.
\<close>

definition jsIndex :: "'a list \<Rightarrow> int \<Rightarrow> 'a option" where
  "jsIndex xs k = (if 0 \<le> k \<and> k < int (length xs) then Some (xs ! nat k) else None)"

text \<open>\<open>data.bridge || undefined\<close>: \<open>null\<close> and the empty string both give \<open>undefined\<close>.\<close>

definition orUndefined :: "string option \<Rightarrow> string option" where
  "orUndefined b = (case b of None \<Rightarrow> None | Some t \<Rightarrow> (if t = [] then None else Some t))"

text \<open>
  The node literal of the creation paths (\<open>tempIdea\<close>, \<open>newIdea\<close>: lines 314, 407, 442,
  648, 692), spreading the placed rectangle.
\<close>

definition tempIdea :: "int \<Rightarrow> rect \<Rightarrow> idea" where
  "tempIdea newIdeaId snappedRect =
     \<lparr>rect_x = rect_x snappedRect, rect_y = rect_y snappedRect,
      rect_width = rect_width snappedRect, rect_height = rect_height snappedRect,
      idea_id = newIdeaId, idea_text = [], asciiArt = None, bridgeText = None, terms = [],
      versions = [], currentVersionIndex = - 1, isLoading = True, isAsciiLoading = True,
      error = None, isCollapsed = False\<rparr>"

text \<open>
  The updater of lines 220 to 239 (repeated at 340, 468 and 719 with \<open>newIdeaId\<close>): the
  body applied to the node whose id matches, then the \<open>prev.map\<close>.
\<close>

definition newVersion :: "mainContent \<Rightarrow> ideaVersion" where
  "newVersion data =
     \<lparr>v_text = mc_text data, v_asciiArt = None,
      v_bridgeText = orUndefined (mc_bridge data), v_terms = Some (mc_terms data)\<rparr>"

definition appendVersionNode :: "mainContent \<Rightarrow> idea \<Rightarrow> idea" where
  "appendVersionNode data i =
     (let updatedVersions = versions i @ [newVersion data]
      in i\<lparr>idea_text := mc_text data,
            bridgeText := orUndefined (mc_bridge data),
            terms := mc_terms data,
            versions := updatedVersions,
            currentVersionIndex := int (length updatedVersions) - 1,
            isLoading := False\<rparr>)"

definition appendVersion :: "int \<Rightarrow> mainContent \<Rightarrow> idea list \<Rightarrow> idea list" where
  "appendVersion nid data prev =
     map (\<lambda>i. if idea_id i = nid then appendVersionNode data i else i) prev"

text \<open>The updater of lines 262 to 276 (repeated at 381, 509 and 760).\<close>

definition attachArtNode :: "string \<Rightarrow> idea \<Rightarrow> idea" where
  "attachArtNode ascii i =
     (let updatedVersions =
        (case jsIndex (versions i) (currentVersionIndex i) of
           Some v \<Rightarrow> (versions i)[nat (currentVersionIndex i) := v\<lparr>v_asciiArt := Some ascii\<rparr>]
         | None \<Rightarrow> versions i)
      in i\<lparr>asciiArt := Some ascii, versions := updatedVersions, isAsciiLoading := False\<rparr>)"

definition attachArt :: "int \<Rightarrow> string \<Rightarrow> idea list \<Rightarrow> idea list" where
  "attachArt nid ascii prev =
     map (\<lambda>i. if idea_id i = nid then attachArtNode ascii i else i) prev"

text \<open>\<open>handleSwitchVersion\<close> (lines 538 to 552); \<open>terms || []\<close> for a version without terms.\<close>

definition switchVersionNode :: "int \<Rightarrow> idea \<Rightarrow> idea" where
  "switchVersionNode index i =
     (case jsIndex (versions i) index of
        Some v \<Rightarrow>
          i\<lparr>currentVersionIndex := index,
            idea_text := v_text v,
            asciiArt := v_asciiArt v,
            bridgeText := v_bridgeText v,
            terms := (case v_terms v of Some ts \<Rightarrow> ts | None \<Rightarrow> [])\<rparr>
      | None \<Rightarrow> i)"

definition handleSwitchVersion :: "int \<Rightarrow> int \<Rightarrow> idea list \<Rightarrow> idea list" where
  "handleSwitchVersion nid index prev =
     map (\<lambda>i. if idea_id i = nid \<and> jsIndex (versions i) index \<noteq> None
               then switchVersionNode index i else i) prev"

text \<open>\<open>handleRemoveIdea\<close> (lines 554 to 566).\<close>

definition handleRemoveIdea :: "int \<Rightarrow> engine \<Rightarrow> engine" where
  "handleRemoveIdea idToRemove s =
     (let remaining = filter (\<lambda>i. idea_id i \<noteq> idToRemove) (ideas s);
          s1 = (if length remaining = 0
                then s\<lparr>showInitialInput := True, sessionStartTime := None,
                       totalCharsGenerated := 0\<rparr>
                else s)
      in s1\<lparr>ideas := remaining,
             activeIdeaId := (if activeIdeaId s = Some idToRemove then None else activeIdeaId s),
             activeSuggestions :=
               filter (\<lambda>sg. sourceId sg \<noteq> idToRemove) (activeSuggestions s)\<rparr>)"

text \<open>\<open>handleBringToFront\<close> (lines 568 to 609).\<close>

definition toolbarRect :: "idea \<Rightarrow> rect" where
  "toolbarRect activeNode =
     \<lparr>rect_x = rect_x activeNode - 20,
      rect_y = rect_y activeNode - TOOLBAR_HEIGHT - 10,
      rect_width = rect_width activeNode + 40,
      rect_height = TOOLBAR_HEIGHT + 10\<rparr>"

definition isOverlapping :: "rect \<Rightarrow> idea \<Rightarrow> bool" where
  "isOverlapping tb node =
     (\<not> (rect_x node + rect_width node < rect_x tb \<or>
         rect_x node > rect_x tb + rect_width tb \<or>
         rect_y node + rect_height node < rect_y tb \<or>
         rect_y node > rect_y tb + rect_height tb))"

definition dyCenter :: "rect \<Rightarrow> idea \<Rightarrow> real" where
  "dyCenter tb node = (rect_y node + rect_height node / 2) - (rect_y tb + rect_height tb / 2)"

definition dxCenter :: "rect \<Rightarrow> idea \<Rightarrow> real" where
  "dxCenter tb node = (rect_x node + rect_width node / 2) - (rect_x tb + rect_width tb / 2)"

definition nudge :: "int \<Rightarrow> rect \<Rightarrow> idea \<Rightarrow> idea" where
  "nudge nid tb node =
     (if idea_id node = nid then node
      else if isOverlapping tb node then
        (if \<bar>dyCenter tb node\<bar> > \<bar>dxCenter tb node\<bar> \<or> rect_y node + rect_height node > rect_y tb
         then
           (let pushY = (rect_y tb - (rect_y node + rect_height node)) - 10
            in node\<lparr>rect_y := rect_y node + pushY\<rparr>)
         else
           (let pushX = (if dxCenter tb node > 0
                         then (rect_x tb + rect_width tb - rect_x node) + 15
                         else (rect_x tb - (rect_x node + rect_width node)) - 15)
            in node\<lparr>rect_x := rect_x node + pushX\<rparr>))
      else node)"

definition bringToFrontIdeas :: "int \<Rightarrow> idea list \<Rightarrow> idea list" where
  "bringToFrontIdeas nid prev =
     (case find (\<lambda>n. idea_id n = nid) prev of
        None \<Rightarrow> prev
      | Some activeNode \<Rightarrow> map (nudge nid (toolbarRect activeNode)) prev)"

definition handleBringToFront :: "int \<Rightarrow> engine \<Rightarrow> engine" where
  "handleBringToFront nid s =
     s\<lparr>activeIdeaId := Some nid, ideas := bringToFrontIdeas nid (ideas s)\<rparr>"

text \<open>
  The derived prompt history: \<open>history\<close> of \<open>generateContentForIdea\<close> (lines 203 to
  206), and \<open>currentHistory\<close> of the concept paths (lines 331, 459 and 710), which is
  computed from the \<open>ideas\<close> of the render in which the handler was created, before
  the new node has been pushed. \<open>Array.prototype.sort\<close> is stable; so is \<open>sort_key\<close>.
\<close>

definition history :: "int \<Rightarrow> idea list \<Rightarrow> string list" where
  "history nid currentIdeas =
     map idea_text
       (sort_key idea_id (filter (\<lambda>i. idea_id i \<noteq> nid \<and> idea_text i \<noteq> []) currentIdeas))"

definition currentHistory :: "idea list \<Rightarrow> string list" where
  "currentHistory snapshot =
     map idea_text (sort_key idea_id (filter (\<lambda>i. idea_text i \<noteq> []) snapshot))"

section \<open>Content service (geminiService.ts)\<close>

text \<open>
  \<open>getSuggestions\<close>: the argument is the outcome of the \<open>try\<close> block up to
  \<open>data.suggestions\<close> (\<open>Inl\<close> when the provider call, \<open>JSON.parse\<close> or the field
  access throws, \<open>Inr\<close> the parsed array otherwise).
\<close>

definition getSuggestions :: "string + string list \<Rightarrow> string list" where
  "getSuggestions resp =
     (case resp of
        Inr suggestions \<Rightarrow> take 3 suggestions
      | Inl err \<Rightarrow>
          [''Explore the implications...'', ''Trace the origins...'',
           ''Uncover the hidden patterns...''])"

section \<open>Generation orchestrator (App.tsx)\<close>

text \<open>Template literals print a number in decimal.\<close>

fun showNat :: "nat \<Rightarrow> string" where
  "showNat n =
     (if n < 10 then [''0123456789'' ! n]
      else showNat (n div 10) @ [''0123456789'' ! (n mod 10)])"

declare showNat.simps [simp del]

definition showInt :: "int \<Rightarrow> string" where
  "showInt k = (if k < 0 then CHR ''-'' # showNat (nat (- k)) else showNat (nat k))"

definition SUGG_HEIGHT :: real where
  "SUGG_HEIGHT = 32"

definition SUGG_GAP :: real where
  "SUGG_GAP = 12"

text \<open>The \<open>suggestedPaths.map((text, idx) => ...)\<close> of lines 244 to 257.\<close>

definition suggs :: "int \<Rightarrow> 'a rect_scheme \<Rightarrow> string list \<Rightarrow> suggestion list" where
  "suggs nid r suggestedPaths =
     (let totalHeight = (SUGG_HEIGHT * 3) + (SUGG_GAP * 2);
          startY = rect_y r + rect_height r / 2 - totalHeight / 2
      in map (\<lambda>(idx, txt).
           \<lparr>rect_x = rect_x r + rect_width r + 100,
            rect_y = startY + of_nat idx * (SUGG_HEIGHT + SUGG_GAP),
            rect_width = 0,
            rect_height = SUGG_HEIGHT,
            sugg_id = ''sugg-'' @ showInt nid @ ''-'' @ showNat idx,
            sourceId = nid,
            sugg_text = txt\<rparr>) (enumerate 0 suggestedPaths))"

text \<open>
  \<open>generateContentForIdea\<close> suspends at each provider call. Its pieces between two
  suspensions are the state updates below; other handlers may run between two of
  them. \<open>err.message || 'An error occurred.'\<close> is \<open>errorMessage\<close>.
\<close>

definition beginGeneration :: "int \<Rightarrow> engine \<Rightarrow> engine" where
  "beginGeneration nid s =
     s\<lparr>ideas := map (\<lambda>i. if idea_id i = nid
                          then i\<lparr>isLoading := True, isAsciiLoading := True, error := None\<rparr>
                          else i) (ideas s),
       activeSuggestions := []\<rparr>"

definition mainContentReady :: "int \<Rightarrow> mainContent \<Rightarrow> engine \<Rightarrow> engine" where
  "mainContentReady nid data s =
     s\<lparr>totalCharsGenerated := totalCharsGenerated s + length (mc_text data),
       ideas := appendVersion nid data (ideas s)\<rparr>"

definition suggestionsReady :: "int \<Rightarrow> 'a rect_scheme \<Rightarrow> string list \<Rightarrow> engine \<Rightarrow> engine" where
  "suggestionsReady nid r suggestedPaths s =
     (if length suggestedPaths > 0 then s\<lparr>activeSuggestions := suggs nid r suggestedPaths\<rparr>
      else s)"

definition asciiArtReady :: "int \<Rightarrow> string \<Rightarrow> engine \<Rightarrow> engine" where
  "asciiArtReady nid ascii s = s\<lparr>ideas := attachArt nid ascii (ideas s)\<rparr>"

definition errorMessage :: "string \<Rightarrow> string" where
  "errorMessage msg = (if msg = [] then ''An error occurred.'' else msg)"

definition generationFailed :: "int \<Rightarrow> string \<Rightarrow> engine \<Rightarrow> engine" where
  "generationFailed nid msg s =
     s\<lparr>ideas := map (\<lambda>i. if idea_id i = nid
                          then i\<lparr>error := Some (errorMessage msg), isLoading := False,
                                 isAsciiLoading := False\<rparr>
                          else i) (ideas s)\<rparr>"

text \<open>
  The whole chain when no other handler runs in between. \<open>mainRes\<close> and \<open>artRes\<close> are
  the outcomes of the awaited \<open>getQuadrantMainContent\<close> and \<open>getQuadrantAsciiArt\<close>
  (\<open>Inl\<close> the message of the rejection), \<open>suggRes\<close> the outcome inside
  \<open>getSuggestions\<close>.
\<close>

definition generateContentForIdea ::
  "int \<Rightarrow> 'a rect_scheme \<Rightarrow> string + mainContent \<Rightarrow> string + string list \<Rightarrow> string + string
     \<Rightarrow> engine \<Rightarrow> engine" where
  "generateContentForIdea nid r mainRes suggRes artRes s =
     (let s1 = beginGeneration nid s
      in case mainRes of
           Inl msg \<Rightarrow> generationFailed nid msg s1
         | Inr data \<Rightarrow>
             (let s2 = mainContentReady nid data s1;
                  s3 = suggestionsReady nid r (getSuggestions suggRes) s2
              in case artRes of
                   Inl msg \<Rightarrow> generationFailed nid msg s3
                 | Inr ascii \<Rightarrow> asciiArtReady nid ascii s3))"

section \<open>Viewport controller\<close>

text \<open>
  \<open>handleZoom\<close> (App.tsx, lines 615 to 627) and \<open>screenToWorld\<close> of the grid
  component; \<open>container\<close> is \<open>containerRef.current\<close> with the \<open>left\<close> and \<open>top\<close> of
  its bounding rectangle.
\<close>

definition handleZoom :: "real \<Rightarrow> point \<Rightarrow> engine \<Rightarrow> engine" where
  "handleZoom delta center s =
     (let prevZoom = zoom s;
          nextZoom = min (max (prevZoom + delta) 0.3) 2.0
      in if nextZoom = prevZoom then s
         else s\<lparr>panOffset :=
                  \<lparr>px = px center - (px center - px (panOffset s)) * (nextZoom / prevZoom),
                   py = py center - (py center - py (panOffset s)) * (nextZoom / prevZoom)\<rparr>,
                zoom := nextZoom\<rparr>)"

definition screenToWorld :: "(real \<times> real) option \<Rightarrow> engine \<Rightarrow> real \<Rightarrow> real \<Rightarrow> point" where
  "screenToWorld container s clientX clientY =
     (case container of
        None \<Rightarrow> \<lparr>px = 0, py = 0\<rparr>
      | Some (rectLeft, rectTop) \<Rightarrow>
          \<lparr>px = (clientX - rectLeft - px (panOffset s)) / zoom s,
           py = (clientY - rectTop - py (panOffset s)) / zoom s\<rparr>)"

section \<open>Concrete inputs\<close>

text \<open>The state of a fresh session (the initial values of the \<open>useState\<close> cells).\<close>

definition engine0 :: engine where
  "engine0 =
     \<lparr>ideas = [], activeIdeaId = None, activeSuggestions = [],
      panOffset = \<lparr>px = 0, py = 0\<rparr>, zoom = 1, showInitialInput = True,
      totalCharsGenerated = 0, sessionStartTime = None\<rparr>"

text \<open>A node of size 10 by 10 at the origin, and a desired rectangle on top of it.\<close>

definition nodeA :: idea where
  "nodeA = tempIdea 0 \<lparr>rect_x = 0, rect_y = 0, rect_width = 10, rect_height = 10\<rparr>"

definition rectB :: rect where
  "rectB = \<lparr>rect_x = 0, rect_y = 0, rect_width = 10, rect_height = 10\<rparr>"

text \<open>A screen point to zoom about.\<close>

definition zoomCenter :: point where
  "zoomCenter = \<lparr>px = 100, py = 50\<rparr>"

text \<open>
  A node with id 7 that was generated once (one version, with its art), and the same
  node after a regeneration has appended a second version.
\<close>

definition dataV0 :: mainContent where
  "dataV0 = \<lparr>mc_text = ''first'', mc_bridge = None, mc_terms = [''fir'']\<rparr>"

definition dataV1 :: mainContent where
  "dataV1 = \<lparr>mc_text = ''second'', mc_bridge = Some ''then'', mc_terms = [''sec'']\<rparr>"

definition node7 :: idea where
  "node7 = tempIdea 7 \<lparr>rect_x = 0, rect_y = 0, rect_width = 300, rect_height = 200\<rparr>"

definition oneVersion :: "idea list" where
  "oneVersion = attachArt 7 ''art0'' (appendVersion 7 dataV0 [node7])"

definition twoVersions :: "idea list" where
  "twoVersions = appendVersion 7 dataV1 oneVersion"

text \<open>
  What the claims say, as predicates: a node keeps its id and loses no version; the
  art of a generation is on the version that this generation appended, and no other
  stored version has changed.
\<close>

definition versionsKept :: "idea \<Rightarrow> idea \<Rightarrow> bool" where
  "versionsKept i i' = (idea_id i' = idea_id i \<and> length (versions i) \<le> length (versions i'))"


text \<open>
  Bringing the node of id 7 (at the origin, 300 by 200) to the front: its toolbar
  rectangle is \<open>(-20, -70, 340, 70)\<close>. Node 8 overlaps the band from the right, node 9
  hangs through it from above with its centre below the band's centre.
\<close>

definition node8 :: idea where
  "node8 = tempIdea 8 \<lparr>rect_x = 310, rect_y = - 50, rect_width = 100, rect_height = 100\<rparr>"

definition node9 :: idea where
  "node9 = tempIdea 9 \<lparr>rect_x = 100, rect_y = - 20, rect_width = 100, rect_height = 300\<rparr>"

definition frontState :: engine where
  "frontState = engine0\<lparr>ideas := [node7, node8, node9]\<rparr>"

text \<open>
  Node 10 touches the top of the band with its bottom edge, to the right of the band's
  centre; node 11 is far away.
\<close>

definition node10 :: idea where
  "node10 = tempIdea 10 \<lparr>rect_x = 300, rect_y = - 170, rect_width = 100, rect_height = 100\<rparr>"

definition node11 :: idea where
  "node11 = tempIdea 11 \<lparr>rect_x = 1000, rect_y = 1000, rect_width = 100, rect_height = 100\<rparr>"

definition touchState :: engine where
  "touchState = engine0\<lparr>ideas := [node7, node10, node11]\<rparr>"

text \<open>
  The nudge as claim C6 words it: along the axis with the larger absolute offset of
  the centres, in the direction of that offset's sign.
\<close>

definition nudgedAlongLargerAxis :: "rect \<Rightarrow> idea \<Rightarrow> idea \<Rightarrow> bool" where
  "nudgedAlongLargerAxis tb node node' =
     (if \<bar>dxCenter tb node\<bar> > \<bar>dyCenter tb node\<bar>
      then rect_y node' = rect_y node \<and>
           (if dxCenter tb node > 0 then rect_x node' > rect_x node
            else rect_x node' < rect_x node)
      else rect_x node' = rect_x node \<and>
           (if dyCenter tb node > 0 then rect_y node' > rect_y node
            else rect_y node' < rect_y node))"

text \<open>
  Nodes 7 and 8 on the canvas, node 8's suggestion showing and 5 characters counted;
  then node 7 is removed while a generation for it is still in flight.
\<close>

definition busyState :: engine where
  "busyState =
     engine0\<lparr>ideas := [node7, node8], activeSuggestions := suggs 8 node8 [''x''],
             totalCharsGenerated := 5, showInitialInput := False\<rparr>"

definition staleState :: engine where
  "staleState = handleRemoveIdea 7 busyState"

text \<open>
  Two nodes with text, listed with the larger id first: node 9 generated once, node 7
  generated twice.
\<close>

definition historyNodes :: "idea list" where
  "historyNodes = appendVersion 9 dataV0 [node9] @ twoVersions"

section \<open>Ring search: the loops against the scan order\<close>

lemma find_app:
  "find P (xs @ ys) = (case find P xs of Some a \<Rightarrow> Some a | None \<Rightarrow> find P ys)"
  by (induction xs) auto

lemma testRect_translate: "testRect r x y = translate r (x, y)"
  by (simp add: testRect_def translate_def step_def)

lemma loopY_find:
  "loopY nodes r rg x y =
     map_option (translate r) (find (\<lambda>off. clears nodes (translate r off)) (colOffsets rg x y))"
proof (induction nodes r rg x y rule: loopY.induct)
  case (1 nodes r rg x y)
  show ?case
  proof (cases "y \<le> rg")
    case False
    then show ?thesis
      by (simp add: loopY.simps [of nodes r rg x y] colOffsets_def)
  next
    case True
    then have up: "[y..rg] = y # [y + 1..rg]"
      by (simp add: upto_rec1)
    show ?thesis
    proof (cases "\<bar>x\<bar> \<noteq> rg \<and> \<bar>y\<bar> \<noteq> rg")
      case skip: True
      with True 1 show ?thesis
        by (simp add: loopY.simps [of nodes r rg x y] colOffsets_def up)
    next
      case perim: False
      show ?thesis
      proof (cases "isOverlap nodes (testRect r x y) GRID_GAP")
        case True
        with \<open>y \<le> rg\<close> perim 1 show ?thesis
          by (auto simp add: loopY.simps [of nodes r rg x y] colOffsets_def up clears_def
              testRect_translate GRID_GAP_def)
      next
        case False
        with \<open>y \<le> rg\<close> perim show ?thesis
          by (auto simp add: loopY.simps [of nodes r rg x y] colOffsets_def up clears_def
              testRect_translate GRID_GAP_def)
      qed
    qed
  qed
qed


lemma loopX_find:
  "loopX nodes r rg x =
     map_option (translate r) (find (\<lambda>off. clears nodes (translate r off)) (ringOffsetsFrom rg x))"
proof (induction nodes r rg x rule: loopX.induct)
  case (1 nodes r rg x)
  show ?case
  proof (cases "x \<le> rg")
    case False
    then show ?thesis
      by (simp add: loopX.simps [of nodes r rg x] ringOffsetsFrom_def)
  next
    case True
    then have up: "ringOffsetsFrom rg x = colOffsets rg x (- rg) @ ringOffsetsFrom rg (x + 1)"
      by (simp add: ringOffsetsFrom_def upto_rec1)
    show ?thesis
    proof (cases "loopY nodes r rg x (- rg)")
      case None
      with True 1 show ?thesis
        by (simp add: loopX.simps [of nodes r rg x] up find_app loopY_find split: option.splits)
    next
      case (Some t)
      with True show ?thesis
        by (auto simp add: loopX.simps [of nodes r rg x] up find_app loopY_find
            split: option.splits)
    qed
  qed
qed

lemma loopR_find:
  "loopR nodes r rg =
     map_option (translate r) (find (\<lambda>off. clears nodes (translate r off)) (allOffsetsFrom rg))"
proof (induction nodes r rg rule: loopR.induct)
  case (1 nodes r rg)
  show ?case
  proof (cases "rg \<le> maxRings")
    case False
    then show ?thesis
      by (simp add: loopR.simps [of nodes r rg] allOffsetsFrom_def maxRings_def)
  next
    case True
    then have up: "allOffsetsFrom rg = ringOffsets rg @ allOffsetsFrom (rg + 1)"
      by (simp add: allOffsetsFrom_def maxRings_def upto_rec1)
    show ?thesis
    proof (cases "loopX nodes r rg (- rg)")
      case None
      with True 1 show ?thesis
        by (simp add: loopR.simps [of nodes r rg] up find_app loopX_find ringOffsets_def
            split: option.splits)
    next
      case (Some t)
      with True show ?thesis
        by (auto simp add: loopR.simps [of nodes r rg] up find_app loopX_find ringOffsets_def
            split: option.splits)
    qed
  qed
qed

lemma set_colOffsets:
  "set (colOffsets rg dx (- rg)) = {(a, b). a = dx \<and> \<bar>b\<bar> \<le> rg \<and> (\<bar>dx\<bar> = rg \<or> \<bar>b\<bar> = rg)}"
  by (auto simp add: colOffsets_def)

lemma set_ringOffsets:
  "set (ringOffsets rg) = {(a, b). \<bar>a\<bar> \<le> rg \<and> \<bar>b\<bar> \<le> rg \<and> (\<bar>a\<bar> = rg \<or> \<bar>b\<bar> = rg)}"
  by (auto simp add: ringOffsets_def ringOffsetsFrom_def set_colOffsets)

lemma set_allOffsets:
  "set allOffsets = {(a, b). 1 \<le> max \<bar>a\<bar> \<bar>b\<bar> \<and> max \<bar>a\<bar> \<bar>b\<bar> \<le> 40}"
proof -
  have "(a, b) \<in> set allOffsets \<longleftrightarrow> 1 \<le> max \<bar>a\<bar> \<bar>b\<bar> \<and> max \<bar>a\<bar> \<bar>b\<bar> \<le> 40" for a b :: int
  proof
    assume "(a, b) \<in> set allOffsets"
    then show "1 \<le> max \<bar>a\<bar> \<bar>b\<bar> \<and> max \<bar>a\<bar> \<bar>b\<bar> \<le> 40"
      by (auto simp add: allOffsets_def allOffsetsFrom_def set_ringOffsets)
  next
    assume h: "1 \<le> max \<bar>a\<bar> \<bar>b\<bar> \<and> max \<bar>a\<bar> \<bar>b\<bar> \<le> 40"
    then have "(a, b) \<in> set (ringOffsets (max \<bar>a\<bar> \<bar>b\<bar>))"
      by (auto simp add: set_ringOffsets)
    with h have "\<exists>rg\<in>set [1..40]. (a, b) \<in> set (ringOffsets rg)"
      by (intro bexI [of _ "max \<bar>a\<bar> \<bar>b\<bar>"]) simp_all
    then show "(a, b) \<in> set allOffsets"
      by (simp add: allOffsets_def allOffsetsFrom_def)
  qed
  then show ?thesis by auto
qed

lemma translate_size:
  "rect_width (translate r off) = rect_width r" "rect_height (translate r off) = rect_height r"
  by (simp_all add: translate_def)

lemma ring_ringOffsets: "off \<in> set (ringOffsets rg) \<longleftrightarrow> ring off = rg \<and> 0 \<le> rg"
  by (cases off) (auto simp add: set_ringOffsets ring_def)

lemma ring_rings: "off \<in> set (concat (map ringOffsets [lo..hi])) \<longleftrightarrow>
    lo \<le> ring off \<and> ring off \<le> hi \<and> 0 \<le> ring off"
  by (auto simp add: ring_ringOffsets)

lemma allOffsets_split:
  assumes "1 \<le> rg" "rg \<le> 40"
  shows "allOffsets = concat (map ringOffsets [1..rg - 1]) @ concat (map ringOffsets [rg..40])"
proof -
  from assms have "[1..40] = [1..rg - 1] @ [rg..40]"
    using upto_split1 [of 1 rg 40] by simp
  then show ?thesis
    by (simp add: allOffsets_def allOffsetsFrom_def)
qed

lemma ring_allOffsets: "off \<in> set allOffsets \<longleftrightarrow> 1 \<le> ring off \<and> ring off \<le> 40"
  unfolding allOffsets_def allOffsetsFrom_def ring_rings by auto

lemma find_SomeD: "find P xs = Some a \<Longrightarrow> P a \<and> a \<in> set xs"
  by (induction xs) (auto split: if_splits)

lemma find_allOffsets_None:
  assumes "find P allOffsets = None" "1 \<le> ring off" "ring off \<le> 40"
  shows "\<not> P off"
proof -
  from assms(2,3) have "off \<in> set allOffsets"
    by (simp add: ring_allOffsets)
  with assms(1) show ?thesis
    using find_None_iff [of P allOffsets] by blast
qed

lemma find_allOffsets_Some:
  assumes "find P allOffsets = Some off"
  shows "P off \<and> 1 \<le> ring off \<and> ring off \<le> 40 \<and>
    (\<forall>off'. 1 \<le> ring off' \<and> ring off' < ring off \<longrightarrow> \<not> P off')"
proof -
  from assms have p: "P off" and mem: "off \<in> set allOffsets"
    by (auto dest: find_SomeD)
  from mem have rng: "1 \<le> ring off" "ring off \<le> 40"
    by (simp_all add: ring_allOffsets)
  let ?inner = "concat (map ringOffsets [1..ring off - 1])"
  let ?outer = "concat (map ringOffsets [ring off..40])"
  have split: "allOffsets = ?inner @ ?outer"
    using rng by (rule allOffsets_split)
  have inner_none: "find P ?inner = None"
  proof (cases "find P ?inner")
    case None
    then show ?thesis .
  next
    case (Some a)
    from assms have "find P (?inner @ ?outer) = Some off"
      by (simp only: split [symmetric])
    with Some have "a = off"
      by (simp add: find_app)
    moreover from Some have "a \<in> set ?inner"
      by (rule find_SomeD [THEN conjunct2])
    ultimately have "ring off \<le> ring off - 1"
      by (simp only: ring_rings)
    then show ?thesis by simp
  qed
  have "\<not> P off'" if "1 \<le> ring off'" "ring off' < ring off" for off'
  proof -
    from that have "off' \<in> set ?inner"
      unfolding ring_rings by simp
    with inner_none show ?thesis
      using find_None_iff [of P ?inner] by blast
  qed
  with p rng show ?thesis by blast
qed

text \<open>
  Claim C1. \<open>findValidSpot\<close> returns its argument itself when the argument clears every
  existing node with the gap of 24. Otherwise it returns the argument translated by
  \<open>(dx * 20, dy * 20)\<close> for the first offset, in the scan order \<open>allOffsets\<close>, whose
  translated rectangle clears every node: that offset lies on a ring between 1 and 40,
  and no offset of a smaller ring gives a clear rectangle. When no offset of the rings
  1 to 40 gives a clear rectangle, it returns the argument. It always returns a
  rectangle, and width and height are those of the argument.
\<close>

theorem findValidSpot_ring_search:
  "(clears nodes r \<longrightarrow> findValidSpot nodes r = r) \<and>
   (\<not> clears nodes r \<longrightarrow>
      (case find (\<lambda>off. clears nodes (translate r off)) allOffsets of
         Some off \<Rightarrow>
           findValidSpot nodes r = translate r off \<and>
           clears nodes (translate r off) \<and>
           1 \<le> ring off \<and> ring off \<le> 40 \<and>
           (\<forall>off'. 1 \<le> ring off' \<and> ring off' < ring off \<longrightarrow>
                   \<not> clears nodes (translate r off'))
       | None \<Rightarrow>
           findValidSpot nodes r = r \<and>
           (\<forall>off'. 1 \<le> ring off' \<and> ring off' \<le> 40 \<longrightarrow>
                   \<not> clears nodes (translate r off')))) \<and>
   rect_width (findValidSpot nodes r) = rect_width r \<and>
   rect_height (findValidSpot nodes r) = rect_height r"
proof (intro conjI impI)
  assume "clears nodes r"
  then show "findValidSpot nodes r = r"
    by (simp add: findValidSpot_def clears_def GRID_GAP_def)
next
  assume ov: "\<not> clears nodes r"
  let ?P = "\<lambda>off. clears nodes (translate r off)"
  have run: "findValidSpot nodes r =
      (case find ?P allOffsets of Some off \<Rightarrow> translate r off | None \<Rightarrow> r)"
    using ov
    by (simp add: findValidSpot_def clears_def GRID_GAP_def loopR_find allOffsets_def
        split: option.splits)
  show "case find ?P allOffsets of
         Some off \<Rightarrow>
           findValidSpot nodes r = translate r off \<and>
           clears nodes (translate r off) \<and>
           1 \<le> ring off \<and> ring off \<le> 40 \<and>
           (\<forall>off'. 1 \<le> ring off' \<and> ring off' < ring off \<longrightarrow>
                   \<not> clears nodes (translate r off'))
       | None \<Rightarrow>
           findValidSpot nodes r = r \<and>
           (\<forall>off'. 1 \<le> ring off' \<and> ring off' \<le> 40 \<longrightarrow>
                   \<not> clears nodes (translate r off'))"
  proof (cases "find ?P allOffsets")
    case None
    with run find_allOffsets_None [of ?P] show ?thesis
      by simp
  next
    case (Some off)
    with run find_allOffsets_Some [of ?P off] show ?thesis
      by simp
  qed
next
  show "rect_width (findValidSpot nodes r) = rect_width r"
    "rect_height (findValidSpot nodes r) = rect_height r"
    by (simp_all add: findValidSpot_def loopR_find translate_size split: option.splits)
qed

lemma allOffsets_split2: "allOffsets = ringOffsets 1 @ ringOffsets 2 @ allOffsetsFrom 3"
  by (simp add: allOffsets_def allOffsetsFrom_def upto_rec1)

lemma ringOffsets_1: "ringOffsets 1 = [(-1,-1),(-1,0),(-1,1),(0,-1),(0,1),(1,-1),(1,0),(1,1)]"
  by (simp add: ringOffsets_def ringOffsetsFrom_def colOffsets_def upto_rec1)

lemma ringOffsets_2_hd: "ringOffsets 2 = (-2,-2) # tl (ringOffsets 2)"
  by (simp add: ringOffsets_def ringOffsetsFrom_def colOffsets_def upto_rec1)

lemma first_clear_offset:
  "find (\<lambda>off. clears [nodeA] (translate rectB off)) allOffsets = Some (-2,-2)"
  apply (subst allOffsets_split2)
  apply (subst ringOffsets_1)
  apply (subst ringOffsets_2_hd)
  apply (simp add: clears_def isOverlap_def translate_def nodeA_def tempIdea_def rectB_def)
  done

theorem findValidSpot_ring_search_witness:
  "clears [] rectB \<and> findValidSpot [] rectB = rectB \<and>
   \<not> clears [nodeA] rectB \<and>
   findValidSpot [nodeA] rectB = \<lparr>rect_x = - 40, rect_y = - 40, rect_width = 10, rect_height = 10\<rparr>"
proof -
  have a: "clears [] rectB" by (simp add: clears_def isOverlap_def)
  have b: "\<not> clears [nodeA] rectB"
    by (simp add: clears_def isOverlap_def nodeA_def tempIdea_def rectB_def)
  have c: "translate rectB (- 2, - 2) = \<lparr>rect_x = - 40, rect_y = - 40, rect_width = 10, rect_height = 10\<rparr>"
    by (simp add: translate_def rectB_def)
  from findValidSpot_ring_search [of "[]" rectB] a have "findValidSpot [] rectB = rectB" by simp
  moreover from findValidSpot_ring_search [of "[nodeA]" rectB] b first_clear_offset c
  have "findValidSpot [nodeA] rectB = \<lparr>rect_x = - 40, rect_y = - 40, rect_width = 10, rect_height = 10\<rparr>"
    by simp
  ultimately show ?thesis using a b by simp
qed

section \<open>Viewport: zoom about a screen point\<close>

text \<open>
  Claim C5. \<open>handleZoom\<close> sets the zoom to \<open>zoom + delta\<close> clamped to \<open>[0.3, 2.0]\<close>;
  when the clamped value is the current zoom the whole state is unchanged; when it
  differs, the new pan offset is \<open>c - (c - panOffset) * (zoom' / zoom)\<close> in both
  coordinates; and for a zoom other than 0 the world point that \<open>screenToWorld\<close>
  gives for the point \<open>c\<close> of the grid's container is the same before and after.
  The container fills the viewport (\<open>fixed inset-0\<close>), so its bounding rectangle
  starts at \<open>(0, 0)\<close> and \<open>c\<close> is the client point that the wheel handler passes.
  Numbers are exact reals.
\<close>

theorem handleZoom_clamp_anchor:
  "zoom (handleZoom delta c s) = min (max (zoom s + delta) 0.3) 2 \<and>
   0.3 \<le> zoom (handleZoom delta c s) \<and> zoom (handleZoom delta c s) \<le> 2 \<and>
   (min (max (zoom s + delta) 0.3) 2 = zoom s \<longrightarrow> handleZoom delta c s = s) \<and>
   (min (max (zoom s + delta) 0.3) 2 \<noteq> zoom s \<longrightarrow>
      px (panOffset (handleZoom delta c s)) =
        px c - (px c - px (panOffset s)) * (zoom (handleZoom delta c s) / zoom s) \<and>
      py (panOffset (handleZoom delta c s)) =
        py c - (py c - py (panOffset s)) * (zoom (handleZoom delta c s) / zoom s)) \<and>
   (zoom s \<noteq> 0 \<longrightarrow>
      screenToWorld (Some (rl, rt)) (handleZoom delta c s) (px c + rl) (py c + rt) =
      screenToWorld (Some (rl, rt)) s (px c + rl) (py c + rt))"
proof -
  define z' where "z' = min (max (zoom s + delta) 0.3) (2::real)"
  have rng: "0.3 \<le> z'" "z' \<le> 2" by (simp_all add: z'_def)
  have zm: "zoom (handleZoom delta c s) = z'"
    by (simp add: handleZoom_def z'_def Let_def)
  have same: "z' = zoom s \<Longrightarrow> handleZoom delta c s = s"
    by (simp add: handleZoom_def z'_def Let_def)
  have pan: "z' \<noteq> zoom s \<Longrightarrow>
      px (panOffset (handleZoom delta c s)) = px c - (px c - px (panOffset s)) * (z' / zoom s) \<and>
      py (panOffset (handleZoom delta c s)) = py c - (py c - py (panOffset s)) * (z' / zoom s)"
    by (simp add: handleZoom_def z'_def Let_def)
  have inv: "screenToWorld (Some (rl, rt)) (handleZoom delta c s) (px c + rl) (py c + rt) =
      screenToWorld (Some (rl, rt)) s (px c + rl) (py c + rt)" if nz: "zoom s \<noteq> 0"
  proof (cases "z' = zoom s")
    case True
    then show ?thesis using same by simp
  next
    case False
    have z'nz: "z' \<noteq> 0" using rng by auto
    have "(a - (a - (a - p) * (z' / zoom s))) / z' = (a - p) / zoom s" for a p :: real
      using nz z'nz by (simp add: field_simps)
    with False pan zm show ?thesis
      by (simp add: screenToWorld_def)
  qed
  show ?thesis
    unfolding zm using rng same pan inv unfolding zm z'_def [symmetric] by blast
qed

theorem handleZoom_clamp_anchor_witness:
  "zoom engine0 \<noteq> 0 \<and>
   min (max (zoom engine0 + 1 / 2) 0.3) 2 \<noteq> zoom engine0 \<and>
   zoom (handleZoom (1 / 2) zoomCenter engine0) = 3 / 2 \<and>
   panOffset (handleZoom (1 / 2) zoomCenter engine0) = \<lparr>px = - 50, py = - 25\<rparr> \<and>
   screenToWorld (Some (0, 0)) (handleZoom (1 / 2) zoomCenter engine0) 100 50 = \<lparr>px = 100, py = 50\<rparr> \<and>
   min (max (zoom (engine0\<lparr>zoom := 2\<rparr>) + 1 / 2) 0.3) 2 = zoom (engine0\<lparr>zoom := 2\<rparr>) \<and>
   handleZoom (1 / 2) zoomCenter (engine0\<lparr>zoom := 2\<rparr>) = engine0\<lparr>zoom := 2\<rparr>"
proof -
  have nz: "zoom engine0 \<noteq> 0" by (simp add: engine0_def)
  have ch: "min (max (zoom engine0 + 1 / 2) 0.3) 2 \<noteq> zoom engine0" by (simp add: engine0_def)
  have st: "min (max (zoom (engine0\<lparr>zoom := 2\<rparr>) + 1 / 2) 0.3) 2 = zoom (engine0\<lparr>zoom := 2\<rparr>)"
    by simp
  note a = handleZoom_clamp_anchor [where delta = "1 / 2" and c = zoomCenter and s = engine0
      and rl = 0 and rt = 0]
  note b = handleZoom_clamp_anchor [where delta = "1 / 2" and c = zoomCenter
      and s = "engine0\<lparr>zoom := 2\<rparr>" and rl = 0 and rt = 0]
  from a have z: "zoom (handleZoom (1 / 2) zoomCenter engine0) = 3 / 2"
    by (simp add: engine0_def)
  from a ch z have p: "panOffset (handleZoom (1 / 2) zoomCenter engine0) = \<lparr>px = - 50, py = - 25\<rparr>"
    by (simp add: engine0_def zoomCenter_def)
  from a nz have "screenToWorld (Some (0, 0)) (handleZoom (1 / 2) zoomCenter engine0) 100 50 =
      screenToWorld (Some (0, 0)) engine0 100 50"
    by (simp add: zoomCenter_def)
  then have w: "screenToWorld (Some (0, 0)) (handleZoom (1 / 2) zoomCenter engine0) 100 50 = \<lparr>px = 100, py = 50\<rparr>"
    by (simp add: screenToWorld_def engine0_def)
  from b st have "handleZoom (1 / 2) zoomCenter (engine0\<lparr>zoom := 2\<rparr>) = engine0\<lparr>zoom := 2\<rparr>"
    by blast
  with nz ch z p w st show ?thesis by blast
qed

section \<open>Node store: switching versions\<close>

lemma jsIndex_Some: "0 \<le> k \<Longrightarrow> k < int (length xs) \<Longrightarrow> jsIndex xs k = Some (xs ! nat k)"
  by (simp add: jsIndex_def)

lemma jsIndex_None: "k < 0 \<or> int (length xs) \<le> k \<Longrightarrow> jsIndex xs k = None"
  by (auto simp add: jsIndex_def)

text \<open>
  Claim C8. \<open>switchVersion(id, idx)\<close> leaves a node as it is when the node has
  another id or \<open>idx\<close> is outside \<open>[0, versions.length)\<close>; for the node with that id
  and an index inside the range it sets \<open>currentVersionIndex\<close> to \<open>idx\<close> and copies the
  text, art, bridge text and terms of that version (no terms giving the empty list)
  onto the node, changing nothing else; the versions themselves stay as they were.
\<close>

theorem handleSwitchVersion_bounds_checked:
  "length (handleSwitchVersion nid idx prev) = length prev \<and>
   (\<forall>k < length prev.
      (idea_id (prev ! k) \<noteq> nid \<or> idx < 0 \<or> int (length (versions (prev ! k))) \<le> idx \<longrightarrow>
         handleSwitchVersion nid idx prev ! k = prev ! k) \<and>
      (idea_id (prev ! k) = nid \<and> 0 \<le> idx \<and> idx < int (length (versions (prev ! k))) \<longrightarrow>
         handleSwitchVersion nid idx prev ! k =
           (prev ! k)\<lparr>currentVersionIndex := idx,
                      idea_text := v_text (versions (prev ! k) ! nat idx),
                      asciiArt := v_asciiArt (versions (prev ! k) ! nat idx),
                      bridgeText := v_bridgeText (versions (prev ! k) ! nat idx),
                      terms := (case v_terms (versions (prev ! k) ! nat idx) of
                                  Some ts \<Rightarrow> ts | None \<Rightarrow> [])\<rparr> \<and>
         versions (handleSwitchVersion nid idx prev ! k) = versions (prev ! k)))"
proof -
  have len: "length (handleSwitchVersion nid idx prev) = length prev"
    by (simp add: handleSwitchVersion_def)
  have "\<And>k. k < length prev \<Longrightarrow>
      idea_id (prev ! k) \<noteq> nid \<or> idx < 0 \<or> int (length (versions (prev ! k))) \<le> idx \<Longrightarrow>
      handleSwitchVersion nid idx prev ! k = prev ! k"
    by (auto simp add: handleSwitchVersion_def jsIndex_None)
  moreover have "\<And>k. k < length prev \<Longrightarrow>
      idea_id (prev ! k) = nid \<and> 0 \<le> idx \<and> idx < int (length (versions (prev ! k))) \<Longrightarrow>
      handleSwitchVersion nid idx prev ! k =
           (prev ! k)\<lparr>currentVersionIndex := idx,
                      idea_text := v_text (versions (prev ! k) ! nat idx),
                      asciiArt := v_asciiArt (versions (prev ! k) ! nat idx),
                      bridgeText := v_bridgeText (versions (prev ! k) ! nat idx),
                      terms := (case v_terms (versions (prev ! k) ! nat idx) of
                                  Some ts \<Rightarrow> ts | None \<Rightarrow> [])\<rparr> \<and>
         versions (handleSwitchVersion nid idx prev ! k) = versions (prev ! k)"
    by (simp add: handleSwitchVersion_def switchVersionNode_def jsIndex_Some)
  ultimately show ?thesis using len by blast
qed

lemmas scen = twoVersions_def oneVersion_def node7_def dataV0_def dataV1_def tempIdea_def
  appendVersion_def appendVersionNode_def newVersion_def attachArt_def attachArtNode_def
  orUndefined_def jsIndex_def

lemma twoVersions_value:
  "twoVersions =
     [\<lparr>rect_x = 0, rect_y = 0, rect_width = 300, rect_height = 200,
       idea_id = 7, idea_text = ''second'', asciiArt = Some ''art0'', bridgeText = Some ''then'',
       terms = [''sec''],
       versions = [\<lparr>v_text = ''first'', v_asciiArt = Some ''art0'', v_bridgeText = None,
                     v_terms = Some [''fir'']\<rparr>,
                   \<lparr>v_text = ''second'', v_asciiArt = None, v_bridgeText = Some ''then'',
                     v_terms = Some [''sec'']\<rparr>],
       currentVersionIndex = 1, isLoading = False, isAsciiLoading = False,
       error = None, isCollapsed = False\<rparr>]"
  by (simp add: scen)

theorem handleSwitchVersion_bounds_checked_witness:
  "handleSwitchVersion 7 2 twoVersions ! 0 = twoVersions ! 0 \<and>
   handleSwitchVersion 7 (- 1) twoVersions ! 0 = twoVersions ! 0 \<and>
   handleSwitchVersion 8 0 twoVersions ! 0 = twoVersions ! 0 \<and>
   currentVersionIndex (handleSwitchVersion 7 0 twoVersions ! 0) = 0 \<and>
   idea_text (handleSwitchVersion 7 0 twoVersions ! 0) = ''first'' \<and>
   asciiArt (handleSwitchVersion 7 0 twoVersions ! 0) = Some ''art0'' \<and>
   bridgeText (handleSwitchVersion 7 0 twoVersions ! 0) = None \<and>
   terms (handleSwitchVersion 7 0 twoVersions ! 0) = [''fir''] \<and>
   versions (handleSwitchVersion 7 0 twoVersions ! 0) = versions (twoVersions ! 0)"
proof -
  have k: "0 < length twoVersions" by (simp add: twoVersions_value)
  have hi: "int (length (versions (twoVersions ! 0))) \<le> 2" by (simp add: twoVersions_value)
  have ident: "idea_id (twoVersions ! 0) = 7" by (simp add: twoVersions_value)
  have inr: "(0::int) \<le> 0 \<and> 0 < int (length (versions (twoVersions ! 0)))"
    by (simp add: twoVersions_value)
  from handleSwitchVersion_bounds_checked [of 7 2 twoVersions] k hi
  have a: "handleSwitchVersion 7 2 twoVersions ! 0 = twoVersions ! 0" by blast
  from handleSwitchVersion_bounds_checked [of 7 "- 1" twoVersions] k
  have b: "handleSwitchVersion 7 (- 1) twoVersions ! 0 = twoVersions ! 0" by simp
  from handleSwitchVersion_bounds_checked [of 8 0 twoVersions] k ident
  have c: "handleSwitchVersion 8 0 twoVersions ! 0 = twoVersions ! 0" by simp
  from handleSwitchVersion_bounds_checked [of 7 0 twoVersions] k ident inr
  have d: "handleSwitchVersion 7 0 twoVersions ! 0 =
           (twoVersions ! 0)\<lparr>currentVersionIndex := 0,
                      idea_text := v_text (versions (twoVersions ! 0) ! nat 0),
                      asciiArt := v_asciiArt (versions (twoVersions ! 0) ! nat 0),
                      bridgeText := v_bridgeText (versions (twoVersions ! 0) ! nat 0),
                      terms := (case v_terms (versions (twoVersions ! 0) ! nat 0) of
                                  Some ts \<Rightarrow> ts | None \<Rightarrow> [])\<rparr> \<and>
         versions (handleSwitchVersion 7 0 twoVersions ! 0) = versions (twoVersions ! 0)"
    by blast
  from d have e: "currentVersionIndex (handleSwitchVersion 7 0 twoVersions ! 0) = 0 \<and>
   idea_text (handleSwitchVersion 7 0 twoVersions ! 0) = ''first'' \<and>
   asciiArt (handleSwitchVersion 7 0 twoVersions ! 0) = Some ''art0'' \<and>
   bridgeText (handleSwitchVersion 7 0 twoVersions ! 0) = None \<and>
   terms (handleSwitchVersion 7 0 twoVersions ! 0) = [''fir'']"
    by (simp add: twoVersions_value)
  from a b c d e show ?thesis by blast
qed

section \<open>Node store: versions only grow\<close>

lemma versionsKept_refl: "versionsKept i i"
  by (simp add: versionsKept_def)

lemma versionsKept_trans: "versionsKept a b \<Longrightarrow> versionsKept b c \<Longrightarrow> versionsKept a c"
  by (simp add: versionsKept_def)

lemma kept_map: "(\<And>i. versionsKept i (f i)) \<Longrightarrow> list_all2 versionsKept prev (map f prev)"
  by (simp add: list_all2_map2 list_all2_same)

lemma kept_trans:
  "list_all2 versionsKept xs ys \<Longrightarrow> list_all2 versionsKept ys zs \<Longrightarrow> list_all2 versionsKept xs zs"
  by (rule list_all2_trans [of versionsKept versionsKept versionsKept])
    (auto intro: versionsKept_trans)

lemma kept_appendVersion: "list_all2 versionsKept prev (appendVersion nid data prev)"
  unfolding appendVersion_def
  by (rule kept_map) (simp add: versionsKept_def appendVersionNode_def)

lemma kept_attachArt: "list_all2 versionsKept prev (attachArt nid ascii prev)"
  unfolding attachArt_def
  by (rule kept_map) (simp add: versionsKept_def attachArtNode_def split: option.splits)

lemma kept_switch: "list_all2 versionsKept prev (handleSwitchVersion nid idx prev)"
  unfolding handleSwitchVersion_def
  by (rule kept_map) (simp add: versionsKept_def switchVersionNode_def split: option.splits)

lemma kept_begin: "list_all2 versionsKept (ideas s) (ideas (beginGeneration nid s))"
  unfolding beginGeneration_def
  by (simp add: list_all2_map2 list_all2_same versionsKept_def)

lemma kept_failed: "list_all2 versionsKept (ideas s) (ideas (generationFailed nid msg s))"
  unfolding generationFailed_def
  by (simp add: list_all2_map2 list_all2_same versionsKept_def)

lemma kept_main: "list_all2 versionsKept (ideas s) (ideas (mainContentReady nid data s))"
  by (simp add: mainContentReady_def kept_appendVersion)

lemma kept_sugg: "list_all2 versionsKept (ideas s) (ideas (suggestionsReady nid r paths s))"
  by (simp add: suggestionsReady_def list_all2_same versionsKept_refl)

lemma kept_art: "list_all2 versionsKept (ideas s) (ideas (asciiArtReady nid ascii s))"
  by (simp add: asciiArtReady_def kept_attachArt)

lemma kept_chain:
  "list_all2 versionsKept (ideas s) (ideas (generateContentForIdea nid r mainRes suggRes artRes s))"
proof (cases mainRes)
  case (Inl msg)
  then show ?thesis
    by (simp add: generateContentForIdea_def Let_def kept_trans [OF kept_begin kept_failed])
next
  case (Inr data)
  note a = kept_trans [OF kept_trans [OF kept_begin kept_main] kept_sugg]
  show ?thesis
  proof (cases artRes)
    case (Inl msg)
    with Inr show ?thesis
      by (simp add: generateContentForIdea_def Let_def kept_trans [OF a kept_failed])
  next
    case (Inr ascii)
    with \<open>mainRes = Inr data\<close> show ?thesis
      by (simp add: generateContentForIdea_def Let_def kept_trans [OF a kept_art])
  qed
qed

lemma appended_node:
  assumes "k < length prev" "idea_id (prev ! k) = nid"
  shows "appendVersion nid data prev ! k = appendVersionNode data (prev ! k)"
  using assms by (simp add: appendVersion_def)

text \<open>
  Claim C2. Appending a version, switching the version, attaching the art and a whole
  generation (regeneration included) keep every node in place with its id and with at
  least as many versions as before; and in the list that \<open>appendVersion\<close> returns, the
  node with the given id has the new version last, \<open>currentVersionIndex\<close> equal to
  \<open>versions.length - 1\<close>, and its text, bridge text and terms equal to the fields of
  that last version.
\<close>

theorem versions_monotone_and_append:
  "list_all2 versionsKept prev (appendVersion nid data prev) \<and>
   list_all2 versionsKept prev (handleSwitchVersion nid idx prev) \<and>
   list_all2 versionsKept prev (attachArt nid ascii prev) \<and>
   list_all2 versionsKept (ideas s)
     (ideas (generateContentForIdea nid r mainRes suggRes artRes s)) \<and>
   (\<forall>k < length prev. idea_id (prev ! k) = nid \<longrightarrow>
      versions (appendVersion nid data prev ! k) = versions (prev ! k) @ [newVersion data] \<and>
      currentVersionIndex (appendVersion nid data prev ! k) =
        int (length (versions (appendVersion nid data prev ! k))) - 1 \<and>
      idea_text (appendVersion nid data prev ! k) =
        v_text (last (versions (appendVersion nid data prev ! k))) \<and>
      bridgeText (appendVersion nid data prev ! k) =
        v_bridgeText (last (versions (appendVersion nid data prev ! k))) \<and>
      Some (terms (appendVersion nid data prev ! k)) =
        v_terms (last (versions (appendVersion nid data prev ! k))))"
proof -
  have "\<And>k. k < length prev \<Longrightarrow> idea_id (prev ! k) = nid \<Longrightarrow>
      versions (appendVersion nid data prev ! k) = versions (prev ! k) @ [newVersion data] \<and>
      currentVersionIndex (appendVersion nid data prev ! k) =
        int (length (versions (appendVersion nid data prev ! k))) - 1 \<and>
      idea_text (appendVersion nid data prev ! k) =
        v_text (last (versions (appendVersion nid data prev ! k))) \<and>
      bridgeText (appendVersion nid data prev ! k) =
        v_bridgeText (last (versions (appendVersion nid data prev ! k))) \<and>
      Some (terms (appendVersion nid data prev ! k)) =
        v_terms (last (versions (appendVersion nid data prev ! k)))"
    by (simp add: appended_node appendVersionNode_def newVersion_def)
  then show ?thesis
    using kept_appendVersion kept_switch kept_attachArt kept_chain by blast
qed

theorem versions_monotone_and_append_witness:
  "list_all2 versionsKept oneVersion (appendVersion 7 dataV1 oneVersion) \<and>
   idea_id (oneVersion ! 0) = 7 \<and>
   length (versions (oneVersion ! 0)) = 1 \<and>
   versions (appendVersion 7 dataV1 oneVersion ! 0) =
     versions (oneVersion ! 0) @ [newVersion dataV1] \<and>
   currentVersionIndex (appendVersion 7 dataV1 oneVersion ! 0) = 1 \<and>
   idea_text (appendVersion 7 dataV1 oneVersion ! 0) = ''second''"
proof -
  note t = versions_monotone_and_append [where prev = oneVersion and nid = 7 and data = dataV1]
  have k: "0 < length oneVersion" by (simp add: scen)
  have ident: "idea_id (oneVersion ! 0) = 7" by (simp add: scen)
  have len: "length (versions (oneVersion ! 0)) = 1" by (simp add: scen)
  from t have a: "list_all2 versionsKept oneVersion (appendVersion 7 dataV1 oneVersion)"
    by blast
  from t k ident have b:
    "versions (appendVersion 7 dataV1 oneVersion ! 0) =
       versions (oneVersion ! 0) @ [newVersion dataV1] \<and>
     currentVersionIndex (appendVersion 7 dataV1 oneVersion ! 0) =
       int (length (versions (appendVersion 7 dataV1 oneVersion ! 0))) - 1 \<and>
     idea_text (appendVersion 7 dataV1 oneVersion ! 0) =
       v_text (last (versions (appendVersion 7 dataV1 oneVersion ! 0)))"
    by blast
  with len have c: "currentVersionIndex (appendVersion 7 dataV1 oneVersion ! 0) = 1"
    by simp
  from b have d: "idea_text (appendVersion 7 dataV1 oneVersion ! 0) = ''second''"
    by (simp add: newVersion_def dataV1_def)
  from a ident len b c d show ?thesis by blast
qed

section \<open>Orchestrator: attaching the art\<close>







section \<open>Node store: bringing a node to the front\<close>

lemma bringToFront_nth:
  assumes "find (\<lambda>n. idea_id n = nid) (ideas s) = Some activeNode" "k < length (ideas s)"
  shows "ideas (handleBringToFront nid s) ! k = nudge nid (toolbarRect activeNode) (ideas s ! k)"
  using assms by (simp add: handleBringToFront_def bringToFrontIdeas_def)

text \<open>
  Claim C6, as amended. With \<open>activeNode\<close> the first node of the given id and \<open>tb\<close> its
  toolbar rectangle: the active node and every node that does not overlap \<open>tb\<close> stay as
  they are. Another node that overlaps \<open>tb\<close> is moved up, to end 10 above the top of
  \<open>tb\<close>, when the vertical offset of the centres is the larger one or the node's bottom
  edge is below the top of \<open>tb\<close>; otherwise it is moved sideways, to start 15 right of
  \<open>tb\<close> when the horizontal offset is positive and to end 15 left of \<open>tb\<close> when it is
  not. The claim as written (the larger offset picks the axis, its sign the direction)
  fails: see the counterexample below.
\<close>

theorem handleBringToFront_nudges:
  "find (\<lambda>n. idea_id n = nid) (ideas s) = Some activeNode \<longrightarrow>
   activeIdeaId (handleBringToFront nid s) = Some nid \<and>
   length (ideas (handleBringToFront nid s)) = length (ideas s) \<and>
   (\<forall>k < length (ideas s).
      (idea_id (ideas s ! k) = nid \<or> \<not> isOverlapping (toolbarRect activeNode) (ideas s ! k) \<longrightarrow>
         ideas (handleBringToFront nid s) ! k = ideas s ! k) \<and>
      (idea_id (ideas s ! k) \<noteq> nid \<and> isOverlapping (toolbarRect activeNode) (ideas s ! k) \<and>
       (\<bar>dyCenter (toolbarRect activeNode) (ideas s ! k)\<bar> >
          \<bar>dxCenter (toolbarRect activeNode) (ideas s ! k)\<bar> \<or>
        rect_y (ideas s ! k) + rect_height (ideas s ! k) > rect_y (toolbarRect activeNode)) \<longrightarrow>
         ideas (handleBringToFront nid s) ! k =
           (ideas s ! k)\<lparr>rect_y :=
              rect_y (toolbarRect activeNode) - rect_height (ideas s ! k) - 10\<rparr>) \<and>
      (idea_id (ideas s ! k) \<noteq> nid \<and> isOverlapping (toolbarRect activeNode) (ideas s ! k) \<and>
       \<bar>dyCenter (toolbarRect activeNode) (ideas s ! k)\<bar> \<le>
          \<bar>dxCenter (toolbarRect activeNode) (ideas s ! k)\<bar> \<and>
       rect_y (ideas s ! k) + rect_height (ideas s ! k) \<le> rect_y (toolbarRect activeNode) \<longrightarrow>
         ideas (handleBringToFront nid s) ! k =
           (if dxCenter (toolbarRect activeNode) (ideas s ! k) > 0
            then (ideas s ! k)\<lparr>rect_x :=
                   rect_x (toolbarRect activeNode) + rect_width (toolbarRect activeNode) + 15\<rparr>
            else (ideas s ! k)\<lparr>rect_x :=
                   rect_x (toolbarRect activeNode) - rect_width (ideas s ! k) - 15\<rparr>)))"
proof (intro impI conjI allI)
  assume f: "find (\<lambda>n. idea_id n = nid) (ideas s) = Some activeNode"
  show "activeIdeaId (handleBringToFront nid s) = Some nid"
    by (simp add: handleBringToFront_def)
  from f show "length (ideas (handleBringToFront nid s)) = length (ideas s)"
    by (simp add: handleBringToFront_def bringToFrontIdeas_def)
  fix k assume k: "k < length (ideas s)"
  note nth = bringToFront_nth [OF f k]
  { assume "idea_id (ideas s ! k) = nid \<or> \<not> isOverlapping (toolbarRect activeNode) (ideas s ! k)"
    then show "ideas (handleBringToFront nid s) ! k = ideas s ! k"
      by (auto simp add: nth nudge_def) }
  { assume "idea_id (ideas s ! k) \<noteq> nid \<and> isOverlapping (toolbarRect activeNode) (ideas s ! k) \<and>
       (\<bar>dyCenter (toolbarRect activeNode) (ideas s ! k)\<bar> >
          \<bar>dxCenter (toolbarRect activeNode) (ideas s ! k)\<bar> \<or>
        rect_y (ideas s ! k) + rect_height (ideas s ! k) > rect_y (toolbarRect activeNode))"
    then show "ideas (handleBringToFront nid s) ! k =
           (ideas s ! k)\<lparr>rect_y :=
              rect_y (toolbarRect activeNode) - rect_height (ideas s ! k) - 10\<rparr>"
      by (auto simp add: nth nudge_def Let_def) }
  { assume "idea_id (ideas s ! k) \<noteq> nid \<and> isOverlapping (toolbarRect activeNode) (ideas s ! k) \<and>
       \<bar>dyCenter (toolbarRect activeNode) (ideas s ! k)\<bar> \<le>
          \<bar>dxCenter (toolbarRect activeNode) (ideas s ! k)\<bar> \<and>
       rect_y (ideas s ! k) + rect_height (ideas s ! k) \<le> rect_y (toolbarRect activeNode)"
    then show "ideas (handleBringToFront nid s) ! k =
           (if dxCenter (toolbarRect activeNode) (ideas s ! k) > 0
            then (ideas s ! k)\<lparr>rect_x :=
                   rect_x (toolbarRect activeNode) + rect_width (toolbarRect activeNode) + 15\<rparr>
            else (ideas s ! k)\<lparr>rect_x :=
                   rect_x (toolbarRect activeNode) - rect_width (ideas s ! k) - 15\<rparr>)"
      by (auto simp add: nth nudge_def Let_def) }
qed

lemmas front = frontState_def engine0_def node7_def node8_def node9_def tempIdea_def
  toolbarRect_def TOOLBAR_HEIGHT_def

lemma front_find: "find (\<lambda>n. idea_id n = 7) (ideas frontState) = Some node7"
  by (simp add: front)

lemma front_tb: "toolbarRect node7 = \<lparr>rect_x = - 20, rect_y = - 70, rect_width = 340, rect_height = 70\<rparr>"
  by (simp add: front)

theorem bringToFront_axis_counterexample:
  "isOverlapping (toolbarRect node7) node8 \<and>
   dxCenter (toolbarRect node7) node8 = 210 \<and>
   dyCenter (toolbarRect node7) node8 = 35 \<and>
   rect_x (ideas (handleBringToFront 7 frontState) ! 1) = rect_x node8 \<and>
   rect_y (ideas (handleBringToFront 7 frontState) ! 1) = - 180 \<and>
   \<not> nudgedAlongLargerAxis (toolbarRect node7) node8 (ideas (handleBringToFront 7 frontState) ! 1) \<and>
   isOverlapping (toolbarRect node7) node9 \<and>
   dxCenter (toolbarRect node7) node9 = 0 \<and>
   dyCenter (toolbarRect node7) node9 = 165 \<and>
   rect_y node9 = - 20 \<and>
   rect_y (ideas (handleBringToFront 7 frontState) ! 2) = - 380 \<and>
   \<not> nudgedAlongLargerAxis (toolbarRect node7) node9 (ideas (handleBringToFront 7 frontState) ! 2)"
proof -
  have n8: "ideas (handleBringToFront 7 frontState) ! 1 = node8\<lparr>rect_y := - 180\<rparr>"
    by (simp add: handleBringToFront_def bringToFrontIdeas_def front nudge_def
        isOverlapping_def dxCenter_def dyCenter_def)
  have n9: "ideas (handleBringToFront 7 frontState) ! 2 = node9\<lparr>rect_y := - 380\<rparr>"
    by (simp add: handleBringToFront_def bringToFrontIdeas_def front nudge_def
        isOverlapping_def dxCenter_def dyCenter_def)
  show ?thesis
    unfolding n8 n9 front_tb
    by (simp add: node8_def node9_def tempIdea_def isOverlapping_def dxCenter_def dyCenter_def
        nudgedAlongLargerAxis_def)
qed

lemmas touch = touchState_def engine0_def node7_def node10_def node11_def tempIdea_def
  toolbarRect_def TOOLBAR_HEIGHT_def

theorem handleBringToFront_nudges_witness:
  "find (\<lambda>n. idea_id n = 7) (ideas frontState) = Some node7 \<and>
   find (\<lambda>n. idea_id n = 7) (ideas touchState) = Some node7 \<and>
   ideas (handleBringToFront 7 frontState) ! 0 = node7 \<and>
   ideas (handleBringToFront 7 frontState) ! 1 = node8\<lparr>rect_y := - 180\<rparr> \<and>
   ideas (handleBringToFront 7 touchState) ! 1 = node10\<lparr>rect_x := 335\<rparr> \<and>
   ideas (handleBringToFront 7 touchState) ! 2 = node11"
proof -
  have ft: "find (\<lambda>n. idea_id n = 7) (ideas touchState) = Some node7"
    by (simp add: touch)
  note a = handleBringToFront_nudges [of 7 frontState node7]
  note b = handleBringToFront_nudges [of 7 touchState node7]
  have len: "0 < length (ideas frontState)" "1 < length (ideas frontState)"
    "1 < length (ideas touchState)" "2 < length (ideas touchState)"
    by (simp_all add: front touch)
  have nths: "ideas frontState ! 0 = node7" "ideas frontState ! 1 = node8"
    "ideas touchState ! 1 = node10" "ideas touchState ! 2 = node11"
    by (simp_all add: frontState_def touchState_def)
  have i7: "idea_id node7 = 7" by (simp add: node7_def tempIdea_def)
  have c8: "idea_id node8 \<noteq> 7 \<and> isOverlapping (toolbarRect node7) node8 \<and>
      (\<bar>dyCenter (toolbarRect node7) node8\<bar> > \<bar>dxCenter (toolbarRect node7) node8\<bar> \<or>
       rect_y node8 + rect_height node8 > rect_y (toolbarRect node7))"
    by (simp add: front_tb) (simp add: node8_def tempIdea_def isOverlapping_def)
  have c10: "idea_id node10 \<noteq> 7 \<and> isOverlapping (toolbarRect node7) node10 \<and>
      \<bar>dyCenter (toolbarRect node7) node10\<bar> \<le> \<bar>dxCenter (toolbarRect node7) node10\<bar> \<and>
      rect_y node10 + rect_height node10 \<le> rect_y (toolbarRect node7)"
    by (simp add: front_tb)
      (simp add: node10_def tempIdea_def isOverlapping_def dxCenter_def dyCenter_def)
  have d10: "dxCenter (toolbarRect node7) node10 > 0"
    by (simp add: front_tb) (simp add: node10_def tempIdea_def dxCenter_def)
  have c11: "\<not> isOverlapping (toolbarRect node7) node11"
    by (simp add: front_tb) (simp add: node11_def tempIdea_def isOverlapping_def)
  from a front_find len(1) nths(1) i7
  have r0: "ideas (handleBringToFront 7 frontState) ! 0 = node7"
    by metis
  from a front_find len(2) nths(2) c8
  have "ideas (handleBringToFront 7 frontState) ! 1 =
      node8\<lparr>rect_y := rect_y (toolbarRect node7) - rect_height node8 - 10\<rparr>"
    by metis
  then have r1: "ideas (handleBringToFront 7 frontState) ! 1 = node8\<lparr>rect_y := - 180\<rparr>"
    by (simp add: front_tb) (simp add: node8_def tempIdea_def)
  from b ft len(3) nths(3) c10 d10
  have "ideas (handleBringToFront 7 touchState) ! 1 =
      node10\<lparr>rect_x := rect_x (toolbarRect node7) + rect_width (toolbarRect node7) + 15\<rparr>"
    by metis
  then have r2: "ideas (handleBringToFront 7 touchState) ! 1 = node10\<lparr>rect_x := 335\<rparr>"
    by (simp add: front_tb)
  from b ft len(4) nths(4) c11
  have r3: "ideas (handleBringToFront 7 touchState) ! 2 = node11"
    by metis
  from front_find ft r0 r1 r2 r3 show ?thesis by blast
qed

section \<open>Orchestrator: the suggestions stage\<close>

lemma getSuggestions_length: "length (getSuggestions resp) \<le> 3"
  by (cases resp) (simp_all add: getSuggestions_def)

lemma suggs_length: "length (suggs nid r paths) = length paths"
  by (simp add: suggs_def Let_def)

lemma suggs_sourceId: "map sourceId (suggs nid r paths) = replicate (length paths) nid"
proof -
  have "map sourceId (suggs nid r paths) = map (\<lambda>p. nid) (enumerate 0 paths)"
    by (simp add: suggs_def Let_def case_prod_beta)
  then show ?thesis
    by (simp add: map_replicate_const)
qed

lemma suggs_text: "map sugg_text (suggs nid r paths) = paths"
proof -
  have "map sugg_text (suggs nid r paths) = map snd (enumerate 0 paths)"
    by (simp add: suggs_def Let_def case_prod_beta comp_def)
  then show ?thesis
    by (simp add: map_snd_enumerate)
qed

lemma chain_no_suggestions:
  "activeSuggestions (generateContentForIdea nid r (Inr data) (Inr []) artRes s) = []"
  by (cases artRes)
    (simp_all add: generateContentForIdea_def Let_def getSuggestions_def suggestionsReady_def
      mainContentReady_def beginGeneration_def generationFailed_def asciiArtReady_def)

text \<open>
  Claim C7, as amended. \<open>getSuggestions\<close> returns at most 3 strings and the stage makes
  one suggestion edge for each, in order. When it returns none, the stage changes
  nothing (and a generation that ran without interruption ends with the active set
  empty, since it was cleared when the generation began); when it returns one to three,
  the stage replaces the whole active suggestion set by these edges, all of which have
  the generated node as their source. A response with one or two items is therefore
  materialized, against the claim as written: see the counterexample below.
\<close>

theorem suggestions_stage:
  "length (getSuggestions resp) \<le> 3 \<and>
   length (suggs nid r (getSuggestions resp)) = length (getSuggestions resp) \<and>
   map sugg_text (suggs nid r (getSuggestions resp)) = getSuggestions resp \<and>
   map sourceId (suggs nid r (getSuggestions resp)) =
     replicate (length (getSuggestions resp)) nid \<and>
   (getSuggestions (Inr items) = []) = (items = []) \<and>
   (getSuggestions resp = [] \<longrightarrow> suggestionsReady nid r (getSuggestions resp) s = s) \<and>
   (getSuggestions resp \<noteq> [] \<longrightarrow>
      suggestionsReady nid r (getSuggestions resp) s =
        s\<lparr>activeSuggestions := suggs nid r (getSuggestions resp)\<rparr>) \<and>
   activeSuggestions (generateContentForIdea nid r (Inr data) (Inr []) artRes s) = []"
proof -
  have "(getSuggestions (Inr items) = []) = (items = [])"
    by (simp add: getSuggestions_def)
  moreover have "getSuggestions resp = [] \<Longrightarrow> suggestionsReady nid r (getSuggestions resp) s = s"
    by (simp add: suggestionsReady_def)
  moreover have "getSuggestions resp \<noteq> [] \<Longrightarrow>
      suggestionsReady nid r (getSuggestions resp) s =
        s\<lparr>activeSuggestions := suggs nid r (getSuggestions resp)\<rparr>"
    by (simp add: suggestionsReady_def)
  ultimately show ?thesis
    using getSuggestions_length suggs_length suggs_sourceId suggs_text chain_no_suggestions
    by blast
qed

theorem two_suggestions_counterexample:
  "length [''a'', ''b''] < 3 \<and>
   activeSuggestions engine0 = [] \<and>
   map sugg_text
     (activeSuggestions (suggestionsReady 7 node7 (getSuggestions (Inr [''a'', ''b''])) engine0)) =
     [''a'', ''b''] \<and>
   map sugg_id
     (activeSuggestions (suggestionsReady 7 node7 (getSuggestions (Inr [''a'', ''b''])) engine0)) =
     [''sugg-7-0'', ''sugg-7-1'']"
  by (simp add: engine0_def getSuggestions_def suggestionsReady_def suggs_def Let_def
      showInt_def showNat.simps)

theorem suggestions_stage_witness:
  "getSuggestions (Inr []) = [] \<and>
   suggestionsReady 7 node7 (getSuggestions (Inr [])) busyState = busyState \<and>
   getSuggestions (Inr [''a'', ''b'', ''c'', ''d'']) \<noteq> [] \<and>
   map sugg_text (activeSuggestions
     (suggestionsReady 7 node7 (getSuggestions (Inr [''a'', ''b'', ''c'', ''d''])) busyState)) =
     [''a'', ''b'', ''c''] \<and>
   map sourceId (activeSuggestions busyState) = [8] \<and>
   map sourceId (activeSuggestions
     (suggestionsReady 7 node7 (getSuggestions (Inr [''a'', ''b'', ''c'', ''d''])) busyState)) =
     [7, 7, 7]"
proof -
  note a = suggestions_stage [where resp = "Inr []" and nid = 7 and r = node7 and s = busyState]
  note b = suggestions_stage [where resp = "Inr [''a'', ''b'', ''c'', ''d'']" and nid = 7
      and r = node7 and s = busyState]
  have e: "getSuggestions (Inr []) = []" by (simp add: getSuggestions_def)
  have g: "getSuggestions (Inr [''a'', ''b'', ''c'', ''d'']) = [''a'', ''b'', ''c'']"
    by (simp add: getSuggestions_def)
  from a e have r0: "suggestionsReady 7 node7 (getSuggestions (Inr [])) busyState = busyState"
    by blast
  from g have ne: "getSuggestions (Inr [''a'', ''b'', ''c'', ''d'']) \<noteq> []" by simp
  with b have eq: "suggestionsReady 7 node7 (getSuggestions (Inr [''a'', ''b'', ''c'', ''d''])) busyState =
      busyState\<lparr>activeSuggestions := suggs 7 node7 (getSuggestions (Inr [''a'', ''b'', ''c'', ''d'']))\<rparr>"
    by blast
  from b have t: "map sugg_text (suggs 7 node7 (getSuggestions (Inr [''a'', ''b'', ''c'', ''d'']))) =
      getSuggestions (Inr [''a'', ''b'', ''c'', ''d''])"
    by blast
  from b have so: "map sourceId (suggs 7 node7 (getSuggestions (Inr [''a'', ''b'', ''c'', ''d'']))) =
     replicate (length (getSuggestions (Inr [''a'', ''b'', ''c'', ''d'']))) 7"
    by blast
  have r1: "map sugg_text (activeSuggestions
     (suggestionsReady 7 node7 (getSuggestions (Inr [''a'', ''b'', ''c'', ''d''])) busyState)) =
     [''a'', ''b'', ''c'']"
    unfolding eq using t g by simp
  have r2: "map sourceId (activeSuggestions
     (suggestionsReady 7 node7 (getSuggestions (Inr [''a'', ''b'', ''c'', ''d''])) busyState)) =
     [7, 7, 7]"
    unfolding eq using so g by (simp add: numeral_3_eq_3)
  have r3: "map sourceId (activeSuggestions busyState) = [8]"
    by (simp add: busyState_def suggs_def Let_def)
  from e r0 ne r1 r2 r3 show ?thesis by blast
qed

section \<open>Content service: suggestions never fail\<close>

lemma chain_success:
  "generateContentForIdea nid r (Inr data) suggRes (Inr ascii) s =
     asciiArtReady nid ascii
       (suggestionsReady nid r (getSuggestions suggRes)
          (mainContentReady nid data (beginGeneration nid s)))"
  by (simp add: generateContentForIdea_def Let_def)

lemma chain_success_node:
  assumes "k < length (ideas s)" "idea_id (ideas s ! k) = nid"
  shows "ideas (generateContentForIdea nid r (Inr data) suggRes (Inr ascii) s) ! k =
     attachArtNode ascii (appendVersionNode data
       ((ideas s ! k)\<lparr>isLoading := True, isAsciiLoading := True, error := None\<rparr>))"
  using assms
  by (simp add: chain_success asciiArtReady_def suggestionsReady_def mainContentReady_def
      beginGeneration_def attachArt_def appendVersion_def appendVersionNode_def Let_def)

lemma chain_fallback_texts:
  "map sugg_text (activeSuggestions (generateContentForIdea nid r (Inr data) (Inl err) artRes s)) =
     getSuggestions (Inl err)"
proof -
  have ne: "getSuggestions (Inl err) \<noteq> []"
    by (simp add: getSuggestions_def)
  show ?thesis
    by (cases artRes)
      (simp_all add: generateContentForIdea_def Let_def suggestionsReady_def ne
        generationFailed_def asciiArtReady_def suggs_text)
qed

text \<open>
  Claim C10. When the provider call inside \<open>getSuggestions\<close> fails, \<open>getSuggestions\<close>
  returns the three fixed strings, and the generation is the one that a response with
  these three strings gives. The suggestions stage then changes no node (so it sets no
  error), the active suggestion set holds the three fallback texts when the generation
  ends, and the art stage runs: with art delivered, the generated node ends with no
  error, with the art, and with both loading flags cleared.
\<close>

theorem getSuggestions_never_throws:
  "getSuggestions (Inl err) =
     [''Explore the implications...'', ''Trace the origins...'',
      ''Uncover the hidden patterns...''] \<and>
   generateContentForIdea nid r mainRes (Inl err) artRes s =
     generateContentForIdea nid r mainRes (Inr (getSuggestions (Inl err))) artRes s \<and>
   ideas (suggestionsReady nid r (getSuggestions (Inl err)) s) = ideas s \<and>
   map sugg_text (activeSuggestions (generateContentForIdea nid r (Inr data) (Inl err) artRes s)) =
     getSuggestions (Inl err) \<and>
   generateContentForIdea nid r (Inr data) (Inl err) (Inr ascii) s =
     asciiArtReady nid ascii
       (suggestionsReady nid r (getSuggestions (Inl err))
          (mainContentReady nid data (beginGeneration nid s))) \<and>
   (\<forall>k < length (ideas s). idea_id (ideas s ! k) = nid \<longrightarrow>
      error (ideas (generateContentForIdea nid r (Inr data) (Inl err) (Inr ascii) s) ! k) = None \<and>
      asciiArt (ideas (generateContentForIdea nid r (Inr data) (Inl err) (Inr ascii) s) ! k) =
        Some ascii \<and>
      isLoading (ideas (generateContentForIdea nid r (Inr data) (Inl err) (Inr ascii) s) ! k) =
        False \<and>
      isAsciiLoading (ideas (generateContentForIdea nid r (Inr data) (Inl err) (Inr ascii) s) ! k) =
        False)"
proof -
  have fb: "getSuggestions (Inl err) =
     [''Explore the implications...'', ''Trace the origins...'',
      ''Uncover the hidden patterns...'']"
    by (simp add: getSuggestions_def)
  have idem: "getSuggestions (Inr (getSuggestions (Inl err))) = getSuggestions (Inl err)"
    by (simp add: getSuggestions_def)
  have same: "generateContentForIdea nid r mainRes (Inl err) artRes s =
     generateContentForIdea nid r mainRes (Inr (getSuggestions (Inl err))) artRes s"
    unfolding generateContentForIdea_def idem by (rule refl)
  have nodes: "ideas (suggestionsReady nid r (getSuggestions (Inl err)) s) = ideas s"
    by (simp add: suggestionsReady_def)
  have fin: "\<And>k. k < length (ideas s) \<Longrightarrow> idea_id (ideas s ! k) = nid \<Longrightarrow>
      error (ideas (generateContentForIdea nid r (Inr data) (Inl err) (Inr ascii) s) ! k) = None \<and>
      asciiArt (ideas (generateContentForIdea nid r (Inr data) (Inl err) (Inr ascii) s) ! k) =
        Some ascii \<and>
      isLoading (ideas (generateContentForIdea nid r (Inr data) (Inl err) (Inr ascii) s) ! k) =
        False \<and>
      isAsciiLoading (ideas (generateContentForIdea nid r (Inr data) (Inl err) (Inr ascii) s) ! k) =
        False"
    by (simp add: chain_success_node attachArtNode_def appendVersionNode_def Let_def)
  from fb same nodes chain_fallback_texts chain_success fin show ?thesis
    by blast
qed

theorem getSuggestions_never_throws_witness:
  "idea_id (ideas busyState ! 0) = 7 \<and>
   error (ideas (generateContentForIdea 7 node7 (Inr dataV0) (Inl ''quota'') (Inr ''art'')
     busyState) ! 0) = None \<and>
   asciiArt (ideas (generateContentForIdea 7 node7 (Inr dataV0) (Inl ''quota'') (Inr ''art'')
     busyState) ! 0) = Some ''art'' \<and>
   length (activeSuggestions (generateContentForIdea 7 node7 (Inr dataV0) (Inl ''quota'')
     (Inr ''art'') busyState)) = 3"
proof -
  note t = getSuggestions_never_throws [where nid = 7 and r = node7 and data = dataV0
      and err = "''quota''" and ascii = "''art''" and s = busyState and artRes = "Inr ''art''" and mainRes = "Inr dataV0"]
  have k: "0 < length (ideas busyState)" by (simp add: busyState_def)
  have ident: "idea_id (ideas busyState ! 0) = 7"
    by (simp add: busyState_def node7_def tempIdea_def)
  from t k ident have a:
    "error (ideas (generateContentForIdea 7 node7 (Inr dataV0) (Inl ''quota'') (Inr ''art'')
       busyState) ! 0) = None \<and>
     asciiArt (ideas (generateContentForIdea 7 node7 (Inr dataV0) (Inl ''quota'') (Inr ''art'')
       busyState) ! 0) = Some ''art''"
    by blast
  from t have "map sugg_text (activeSuggestions (generateContentForIdea 7 node7 (Inr dataV0)
      (Inl ''quota'') (Inr ''art'') busyState)) = getSuggestions (Inl ''quota'')"
    by blast
  then have "length (map sugg_text (activeSuggestions (generateContentForIdea 7 node7 (Inr dataV0)
      (Inl ''quota'') (Inr ''art'') busyState))) = 3"
    by (simp add: getSuggestions_def)
  then have b: "length (activeSuggestions (generateContentForIdea 7 node7 (Inr dataV0)
      (Inl ''quota'') (Inr ''art'') busyState)) = 3"
    by simp
  from ident a b show ?thesis by blast
qed

section \<open>Orchestrator: continuations of a removed node\<close>

lemma map_other_ids:
  "nid \<notin> idea_id ` set prev \<Longrightarrow> map (\<lambda>i. if idea_id i = nid then f i else i) prev = prev"
  by (induction prev) auto

lemma removed_id: "nid \<notin> idea_id ` set (ideas (handleRemoveIdea nid s))"
  by (auto simp add: handleRemoveIdea_def Let_def)

text \<open>
  Claim C4, as amended. After \<open>handleRemoveIdea\<close> no node has the removed id. In a
  state without a node of that id, every update of the node list by a late
  continuation changes nothing, since each is a map that rewrites the node of that id
  only: the art and the failure continuation leave the whole state as it is, and the
  main-content and suggestions continuations leave the node list as it is. No
  continuation checks that the node exists, and two writes are not keyed by the id: the
  main-content continuation adds the length of the text to \<open>totalCharsGenerated\<close>, and
  the suggestions continuation replaces the active suggestion set when it has a
  suggestion. The claim as written (no engine state changes) fails there: see the
  counterexample below.
\<close>

theorem stale_continuation:
  "nid \<notin> idea_id ` set (ideas (handleRemoveIdea nid s0)) \<and>
   (nid \<notin> idea_id ` set (ideas s) \<longrightarrow>
      asciiArtReady nid ascii s = s \<and>
      generationFailed nid msg s = s \<and>
      mainContentReady nid data s =
        s\<lparr>totalCharsGenerated := totalCharsGenerated s + length (mc_text data)\<rparr> \<and>
      ideas (mainContentReady nid data s) = ideas s \<and>
      ideas (suggestionsReady nid r paths s) = ideas s \<and>
      suggestionsReady nid r paths s =
        (if paths = [] then s else s\<lparr>activeSuggestions := suggs nid r paths\<rparr>))"
proof (intro conjI impI)
  show "nid \<notin> idea_id ` set (ideas (handleRemoveIdea nid s0))"
    by (rule removed_id)
next
  assume gone: "nid \<notin> idea_id ` set (ideas s)"
  show "asciiArtReady nid ascii s = s"
    by (simp add: asciiArtReady_def attachArt_def map_other_ids [OF gone])
  show "generationFailed nid msg s = s"
    by (simp add: generationFailed_def map_other_ids [OF gone])
  show "mainContentReady nid data s =
        s\<lparr>totalCharsGenerated := totalCharsGenerated s + length (mc_text data)\<rparr>"
    by (simp add: mainContentReady_def appendVersion_def map_other_ids [OF gone])
  show "ideas (mainContentReady nid data s) = ideas s"
    by (simp add: mainContentReady_def appendVersion_def map_other_ids [OF gone])
  show "ideas (suggestionsReady nid r paths s) = ideas s"
    by (simp add: suggestionsReady_def)
  show "suggestionsReady nid r paths s =
        (if paths = [] then s else s\<lparr>activeSuggestions := suggs nid r paths\<rparr>)"
    by (simp add: suggestionsReady_def)
qed

lemma staleState_value:
  "staleState =
     engine0\<lparr>ideas := [node8], activeSuggestions := suggs 8 node8 [''x''],
             totalCharsGenerated := 5, showInitialInput := False\<rparr>"
  by (simp add: staleState_def busyState_def handleRemoveIdea_def Let_def engine0_def
      node7_def node8_def tempIdea_def suggs_def)

theorem stale_update_counterexample:
  "map idea_id (ideas busyState) = [7, 8] \<and>
   map idea_id (ideas staleState) = [8] \<and>
   totalCharsGenerated staleState = 5 \<and>
   totalCharsGenerated (mainContentReady 7 dataV1 staleState) = 11 \<and>
   mainContentReady 7 dataV1 staleState \<noteq> staleState \<and>
   map sourceId (activeSuggestions staleState) = [8] \<and>
   map sourceId (activeSuggestions
     (suggestionsReady 7 node7 (getSuggestions (Inr [''a''])) staleState)) = [7]"
proof -
  have a: "map idea_id (ideas busyState) = [7, 8]"
    by (simp add: busyState_def node7_def node8_def tempIdea_def)
  have b: "map idea_id (ideas staleState) = [8]"
    by (simp add: staleState_value node8_def tempIdea_def)
  have c: "totalCharsGenerated staleState = 5"
    by (simp add: staleState_value)
  have d: "totalCharsGenerated (mainContentReady 7 dataV1 staleState) = 11"
    by (simp add: staleState_value mainContentReady_def dataV1_def)
  from c d have e: "mainContentReady 7 dataV1 staleState \<noteq> staleState"
    by auto
  have f: "map sourceId (activeSuggestions staleState) = [8]"
    by (simp add: staleState_value suggs_def Let_def)
  have g: "map sourceId (activeSuggestions
     (suggestionsReady 7 node7 (getSuggestions (Inr [''a''])) staleState)) = [7]"
    by (simp add: suggestionsReady_def getSuggestions_def suggs_def Let_def)
  from a b c d e f g show ?thesis by blast
qed

theorem stale_continuation_witness:
  "7 \<notin> idea_id ` set (ideas staleState) \<and>
   asciiArtReady 7 ''art'' staleState = staleState \<and>
   generationFailed 7 ''quota'' staleState = staleState \<and>
   ideas (mainContentReady 7 dataV1 staleState) = [node8]"
proof -
  note t = stale_continuation [where nid = 7 and s = staleState and ascii = "''art''"
      and msg = "''quota''" and data = dataV1 and ?s0.0 = busyState and r = node7
      and paths = "[]"]
  from t have gone: "7 \<notin> idea_id ` set (ideas staleState)"
    by (simp add: staleState_def)
  with t have a: "asciiArtReady 7 ''art'' staleState = staleState"
    and b: "generationFailed 7 ''quota'' staleState = staleState"
    and c: "ideas (mainContentReady 7 dataV1 staleState) = ideas staleState"
    by blast+
  from c have d: "ideas (mainContentReady 7 dataV1 staleState) = [node8]"
    by (simp add: staleState_value)
  from gone a b d show ?thesis by blast
qed

section \<open>Node store: the derived prompt history\<close>

lemma sorted_ids_strict:
  assumes "distinct (map idea_id xs)"
  shows "sorted_wrt (<) (map idea_id (sort_key idea_id (filter P xs)))"
proof -
  from assms have "distinct (map idea_id (filter P xs))"
    by (rule distinct_map_filter)
  then have "distinct (filter P xs) \<and> inj_on idea_id (set (filter P xs))"
    by (simp add: distinct_map)
  then have "distinct (map idea_id (sort_key idea_id (filter P xs)))"
    by (simp add: distinct_map)
  moreover have "sorted (map idea_id (sort_key idea_id (filter P xs)))"
    by (rule sorted_sort_key)
  ultimately show ?thesis
    by (simp add: strict_sorted_iff)
qed

lemma history_nonempty_texts: "[] \<notin> set (history nid cur)"
  by (auto simp add: history_def)

lemma currentHistory_nonempty_texts: "[] \<notin> set (currentHistory snapshot)"
  by (auto simp add: currentHistory_def)

lemma currentHistory_eq_history:
  assumes "nid \<notin> idea_id ` set snapshot"
  shows "currentHistory snapshot = history nid (snapshot @ [tempIdea nid r])"
proof -
  have "filter (\<lambda>i. idea_id i \<noteq> nid \<and> idea_text i \<noteq> []) snapshot =
      filter (\<lambda>i. idea_text i \<noteq> []) snapshot"
    using assms by (intro filter_cong) auto
  then show ?thesis
    by (simp add: currentHistory_def history_def tempIdea_def)
qed

text \<open>
  Claim C9. The history that \<open>generateContentForIdea\<close> passes to the main-content
  request (rectangle draw, first topic, regeneration) holds no empty text and, the ids
  of the nodes being distinct, is the list of texts of exactly the nodes with another
  id than the generated one and a non-empty text, each once, in strictly ascending
  order of id. The concept paths (term click, suggestion click, typed concept) compute
  \<open>currentHistory\<close> from the nodes before the new one is pushed; for a fresh id this is
  the same list as the history of the new node in the list that contains it.
\<close>

theorem history_derivation:
  "[] \<notin> set (history nid cur) \<and>
   [] \<notin> set (currentHistory snapshot) \<and>
   (distinct (map idea_id cur) \<longrightarrow>
      (\<exists>ns. history nid cur = map idea_text ns \<and>
            set ns = {i \<in> set cur. idea_id i \<noteq> nid \<and> idea_text i \<noteq> []} \<and>
            distinct ns \<and>
            sorted_wrt (<) (map idea_id ns))) \<and>
   (nid \<notin> idea_id ` set snapshot \<longrightarrow>
      currentHistory snapshot = history nid (snapshot @ [tempIdea nid r]))"
proof (intro conjI impI)
  show "[] \<notin> set (history nid cur)" by (rule history_nonempty_texts)
  show "[] \<notin> set (currentHistory snapshot)" by (rule currentHistory_nonempty_texts)
next
  assume d: "distinct (map idea_id cur)"
  let ?ns = "sort_key idea_id (filter (\<lambda>i. idea_id i \<noteq> nid \<and> idea_text i \<noteq> []) cur)"
  have "history nid cur = map idea_text ?ns"
    by (simp add: history_def)
  moreover have "set ?ns = {i \<in> set cur. idea_id i \<noteq> nid \<and> idea_text i \<noteq> []}"
    by auto
  moreover from d have "distinct cur"
    by (simp add: distinct_map)
  then have "distinct ?ns"
    by simp
  moreover from d have "sorted_wrt (<) (map idea_id ?ns)"
    by (rule sorted_ids_strict)
  ultimately show "\<exists>ns. history nid cur = map idea_text ns \<and>
            set ns = {i \<in> set cur. idea_id i \<noteq> nid \<and> idea_text i \<noteq> []} \<and>
            distinct ns \<and>
            sorted_wrt (<) (map idea_id ns)"
    by blast
next
  assume "nid \<notin> idea_id ` set snapshot"
  then show "currentHistory snapshot = history nid (snapshot @ [tempIdea nid r])"
    by (rule currentHistory_eq_history)
qed

lemma historyNodes_ids_texts:
  "map idea_id historyNodes = [9, 7]" "map idea_text historyNodes = [''first'', ''second'']"
  by (simp_all add: historyNodes_def twoVersions_value appendVersion_def appendVersionNode_def
      node9_def tempIdea_def dataV0_def)

theorem history_derivation_witness:
  "distinct (map idea_id (historyNodes @ [tempIdea 8 rectB])) \<and>
   8 \<notin> idea_id ` set historyNodes \<and>
   currentHistory historyNodes = history 8 (historyNodes @ [tempIdea 8 rectB]) \<and>
   currentHistory historyNodes = [''second'', ''first''] \<and>
   (\<exists>ns :: idea list. history 8 (historyNodes @ [tempIdea 8 rectB]) = map idea_text ns \<and>
         sorted_wrt (<) (map idea_id ns))"
proof -
  note t = history_derivation [where nid = 8 and cur = "historyNodes @ [tempIdea 8 rectB]"
      and snapshot = historyNodes and r = rectB]
  have d: "distinct (map idea_id (historyNodes @ [tempIdea 8 rectB]))"
    by (simp add: historyNodes_ids_texts) (simp add: tempIdea_def)
  have "idea_id ` set historyNodes = set (map idea_id historyNodes)" by simp
  then have fresh: "8 \<notin> idea_id ` set historyNodes"
    by (simp only: historyNodes_ids_texts) simp
  from t fresh have eq: "currentHistory historyNodes = history 8 (historyNodes @ [tempIdea 8 rectB])"
    by blast
  from t d have ex: "\<exists>ns :: idea list. history 8 (historyNodes @ [tempIdea 8 rectB]) = map idea_text ns \<and>
         sorted_wrt (<) (map idea_id ns)"
    by blast
  have v: "currentHistory historyNodes = [''second'', ''first'']"
    by (simp add: currentHistory_def historyNodes_def twoVersions_value appendVersion_def
        appendVersionNode_def node9_def tempIdea_def dataV0_def)
  from d fresh eq v ex show ?thesis by blast
qed

end
